theory Spec2Isabelle
  imports Main "HOL-Library.Word"
begin

section \<open>Data model of src/descriptors.ts\<close>

text \<open>
  A shallow embedding of \<^verbatim>\<open>src/descriptors.ts\<close>: the functions \<^verbatim>\<open>countNonPushOnlyOPs\<close>,
  \<^verbatim>\<open>evaluate\<close>, \<^verbatim>\<open>expand\<close> and the class \<^verbatim>\<open>Output\<close>. A \<^verbatim>\<open>throw\<close> is the left
  summand of a result \<open>error + 'a\<close>; an optional field (\<^verbatim>\<open>undefined\<close>) is \<open>None\<close>.
  Everything the file imports from other modules (the checksum, the regular expressions of
  \<^verbatim>\<open>re.ts\<close>, the key and miniscript parsers, bitcoinjs-lib) is a field of the record
  \<open>env\<close> below, so that every theorem holds for whatever these collaborators compute.
\<close>

type_synonym Buffer = "8 word list"

datatype network = bitcoin | testnet | regtest

text \<open>
  A JavaScript \<^verbatim>\<open>number\<close>, as far as the code looks at it: either a number for which
  \<^verbatim>\<open>Number.isInteger\<close> holds, with its value, or any other number (a fraction, NaN, an
  infinity).
\<close>

datatype number = Integer int | NonInteger

text \<open>One constructor for each \<^verbatim>\<open>throw\<close> of the file, and one for a collaborator's own error.\<close>

datatype error =
    NoDescriptor
  | HasNotChecksum
  | InvalidChecksum
  | IndexForNonRanged
  | ExpressionDeprecated
  | DescriptorNotProvided
  | InvalidIndex
  | AddrCannotBeRanged
  | CouldNotGetAddress
  | InvalidAddress
  | KeyExpressionNotExtracted
  | InvalidExpression
  | NoPubkey
  | NoRedeemScript
  | CouldNotGetMiniscript
  | MiniscriptOnlyInWsh
  | ScriptTooLarge
  | P2SHScriptTooLarge
  | TooManyOps
  | CouldNotDecompile
  | CouldNotParse
  | InvalidDescriptorType
  | IndexNotProvided
  | NoPayment
  | ExpansionMapNotAvailable
  | TimeConstraintsNotExpanded
  | NoAddress
  | NoOutputScript
  | SatisfactionNotExpanded
  | NoValidSatisfaction
  | InvalidInputOrTxInput
  | NoUtxo
  | UtxoShouldExist
  | CannotFinalize
  | InvalidSignatures
  | NoSignatures
  | External string

text \<open>
  bitcoinjs-lib's \<^verbatim>\<open>Payment\<close>, with the fields this file reads: \<^verbatim>\<open>output\<close> (the
  scriptPubKey; \<open>pay_output\<close> here), \<^verbatim>\<open>address\<close> and the nested \<^verbatim>\<open>redeem\<close> payment. A payment function is
  called with one of three argument shapes: \<^verbatim>\<open>{ output, network }\<close>,
  \<^verbatim>\<open>{ pubkey, network }\<close> or \<^verbatim>\<open>{ redeem, network }\<close>.
\<close>

datatype payment =
  Payment (pay_output: "Buffer option") (address: "string option") (redeem: "payment option")

datatype paymentArg = FromOutput Buffer | FromPubkey Buffer | FromRedeem payment

text \<open>The key-info record of the spec's data model, with the fields this file reads.\<close>

record keyInfo =
  keyExpression :: string
  pubkey :: "Buffer option"

type_synonym expansionMap = "(string \<times> keyInfo) list"

text \<open>What \<^verbatim>\<open>bscript.decompile\<close> yields: an opcode number or a pushed buffer.\<close>

datatype token = Opcode nat | Push Buffer

record partialSig =
  sig_pubkey :: Buffer
  signature :: Buffer

type_synonym preimage = "string \<times> string"

record timeConstraints =
  nLockTime :: "nat option"
  nSequence :: "nat option"

record satisfaction =
  scriptSatisfaction :: "Buffer option"
  sat_nLockTime :: "nat option"
  sat_nSequence :: "nat option"

record expansion =
  payment :: "payment option"
  expandedExpression :: "string option"
  miniscript :: "string option"
  expansionMap :: "expansionMap option"
  isSegwit :: "bool option"
  expandedMiniscript :: "string option"
  redeemScript :: "Buffer option"
  witnessScript :: "Buffer option"
  isRanged :: bool
  canonicalExpression :: string

text \<open>The part of a PSBT that \<^verbatim>\<open>#assertPsbtInput\<close> and \<^verbatim>\<open>finalizePsbtInput\<close> read.\<close>

record psbtInput =
  witnessUtxo :: "Buffer option" \<comment> \<open>the script of \<^verbatim>\<open>input.witnessUtxo\<close>, when there is one\<close>
  nonWitnessUtxo :: "Buffer option"
  in_witnessScript :: "Buffer option"
  in_redeemScript :: "Buffer option"
  partialSig :: "partialSig list option"

record txInput =
  sequence :: "nat option"
  vout :: nat

record psbt =
  inputs :: "psbtInput list"
  txInputs :: "txInput list"
  locktime :: nat

text \<open>
  The collaborators. \<open>DescriptorChecksum\<close> is \<^verbatim>\<open>checksum.ts\<close>; \<open>shortestDigits\<close> is the
  digit selection of \<^verbatim>\<open>Number.prototype.toString\<close> above \<^verbatim>\<open>Number.MAX_SAFE_INTEGER\<close>;
  the \<open>re...\<close> fields are the patterns of \<^verbatim>\<open>re.ts\<close>, none of which is in the sources
  (\<open>reKeyExp\<close> gives the text of the first match; \<open>rePkAnchored\<close>, \<open>rePkhAnchored\<close>,
  \<open>reShWpkhAnchored\<close> and \<open>reWpkhAnchored\<close> say whether the pattern matches;
  \<open>reAddrAnchored\<close>, \<open>reShWshMiniscriptAnchored\<close>, \<open>reShMiniscriptAnchored\<close> and
  \<open>reWshMiniscriptAnchored\<close> give group 1 of the match, the text that \<^verbatim>\<open>expand\<close> reads
  with \<^verbatim>\<open>match(...)?.[1]\<close>); \<open>parseKeyExpression\<close> is \<^verbatim>\<open>keyExpressions.ts\<close>; \<open>expandMiniscript\<close>,
  \<open>miniscript2Script\<close> and \<open>satisfyMiniscript\<close> are \<^verbatim>\<open>miniscript.ts\<close>; the others are
  bitcoinjs-lib (\<^verbatim>\<open>address\<close>, \<^verbatim>\<open>payments\<close>, \<^verbatim>\<open>script\<close>, \<^verbatim>\<open>Transaction\<close>, \<^verbatim>\<open>Psbt\<close>)
  and \<^verbatim>\<open>psbt.ts\<close>.
\<close>

record env =
  DescriptorChecksum :: "string \<Rightarrow> error + string"
  shortestDigits :: "int \<Rightarrow> nat \<times> nat"
  reKeyExp :: "string \<Rightarrow> string option"
  rePkAnchored :: "string \<Rightarrow> bool"
  rePkhAnchored :: "string \<Rightarrow> bool"
  reShWpkhAnchored :: "string \<Rightarrow> bool"
  reWpkhAnchored :: "string \<Rightarrow> bool"
  reAddrAnchored :: "string \<Rightarrow> string option"
  reShWshMiniscriptAnchored :: "string \<Rightarrow> string option"
  reShMiniscriptAnchored :: "string \<Rightarrow> string option"
  reWshMiniscriptAnchored :: "string \<Rightarrow> string option"
  parseKeyExpression :: "string \<Rightarrow> network \<Rightarrow> bool \<Rightarrow> error + keyInfo"
  expandMiniscript :: "string \<Rightarrow> bool \<Rightarrow> network \<Rightarrow> error + string \<times> expansionMap"
  miniscript2Script :: "string \<Rightarrow> expansionMap \<Rightarrow> error + Buffer"
  satisfyMiniscript :: "string \<Rightarrow> expansionMap \<Rightarrow> partialSig list \<Rightarrow> preimage list
    \<Rightarrow> timeConstraints option \<Rightarrow> error + satisfaction"
  toOutputScript :: "string \<Rightarrow> network \<Rightarrow> error + Buffer"
  p2pk :: "paymentArg \<Rightarrow> network \<Rightarrow> error + payment"
  p2pkh :: "paymentArg \<Rightarrow> network \<Rightarrow> error + payment"
  p2sh :: "paymentArg \<Rightarrow> network \<Rightarrow> error + payment"
  p2wpkh :: "paymentArg \<Rightarrow> network \<Rightarrow> error + payment"
  p2wsh :: "paymentArg \<Rightarrow> network \<Rightarrow> error + payment"
  p2tr :: "paymentArg \<Rightarrow> network \<Rightarrow> error + payment"
  decompile :: "Buffer \<Rightarrow> token list option"
  fromBuffer :: "Buffer \<Rightarrow> error + Buffer list"
  validateSignaturesOfInput :: "psbt \<Rightarrow> nat \<Rightarrow> error + bool"
  finalizeInput :: "psbt \<Rightarrow> nat \<Rightarrow> (Buffer \<times> network) option \<Rightarrow> error + psbt"

definition bindE :: "error + 'a \<Rightarrow> ('a \<Rightarrow> error + 'b) \<Rightarrow> error + 'b" where
  "bindE m f = (case m of Inl e \<Rightarrow> Inl e | Inr x \<Rightarrow> f x)"

section \<open>Constants and countNonPushOnlyOPs\<close>

definition MAX_SCRIPT_ELEMENT_SIZE :: nat where
  "MAX_SCRIPT_ELEMENT_SIZE = 520"

definition MAX_STANDARD_P2WSH_SCRIPT_SIZE :: nat where
  "MAX_STANDARD_P2WSH_SCRIPT_SIZE = 3600"

definition MAX_OPS_PER_SCRIPT :: nat where
  "MAX_OPS_PER_SCRIPT = 201"

text \<open>
  Modelled from the spec: \<^verbatim>\<open>bscript.OPS['OP_16']\<close> is a constant of bitcoinjs-lib; the
  spec gives its value, \<^verbatim>\<open>0x60\<close>.
\<close>

definition OP_16 :: nat where
  "OP_16 = 0x60"

fun isNonPushOp :: "token \<Rightarrow> bool" where
  "isNonPushOp (Opcode op) = (op > OP_16)"
| "isNonPushOp (Push b) = False"

definition countNonPushOnlyOPs :: "env \<Rightarrow> Buffer \<Rightarrow> error + nat" where
  "countNonPushOnlyOPs env script =
     (case decompile env script of
        None \<Rightarrow> Inl CouldNotDecompile
      | Some toks \<Rightarrow> Inr (length (filter isNonPushOp toks)))"

section \<open>evaluate\<close>

text \<open>
  Modelled from the spec: \<^verbatim>\<open>RE.reChecksum\<close> is a constant of \<^verbatim>\<open>re.ts\<close>. The spec has the
  checksum as the 8-character code appended as \<^verbatim>\<open>#xxxxxxxx\<close>, in the scheme of Bitcoin
  Core's \<^verbatim>\<open>descriptor.cpp\<close>, whose checksum alphabet is the one below.
  \<open>matchChecksum d\<close> is \<^verbatim>\<open>descriptor.match(`(${RE.reChecksum})$`)\<close>: the text of the
  match (the last nine characters) when there is one.
\<close>

definition CHECKSUM_CHARSET :: string where
  "CHECKSUM_CHARSET = ''qpzry9x8gf2tvdw0s3jn54khce6mua7l''"

definition matchChecksum :: "string \<Rightarrow> string option" where
  "matchChecksum d =
     (let n = length d in
      if 9 \<le> n \<and> d ! (n - 9) = CHR ''#'' \<and>
         list_all (\<lambda>c. c \<in> set CHECKSUM_CHARSET) (drop (n - 8) d)
      then Some (drop (n - 9) d) else None)"

text \<open>\<^verbatim>\<open>s.replaceAll('*', r)\<close>.\<close>

definition replaceAll :: "char \<Rightarrow> string \<Rightarrow> string \<Rightarrow> string" where
  "replaceAll c r s = concat (map (\<lambda>x. if x = c then r else [x]) s)"

text \<open>
  \<^verbatim>\<open>index.toString()\<close> for an integer index that is not negative. Up to
  \<^verbatim>\<open>Number.MAX_SAFE_INTEGER\<close> it is the decimal numeral of the value. Above, ECMAScript
  prints the shortest digits \<open>s\<close> that read back as the same double, with their magnitude
  \<open>n\<close> (the collaborator \<open>shortestDigits\<close>): the digits and then zeros up to \<open>n\<close> places
  when \<open>n \<le> 21\<close>, and exponent notation beyond.
\<close>

definition MAX_SAFE_INTEGER :: int where
  "MAX_SAFE_INTEGER = 2 ^ 53 - 1"

fun decimal :: "nat \<Rightarrow> string" where
  "decimal n =
     (if n < 10 then [''0123456789'' ! n]
      else decimal (n div 10) @ [''0123456789'' ! (n mod 10)])"

declare decimal.simps [simp del]

definition formatDigits :: "nat \<times> nat \<Rightarrow> string" where
  "formatDigits sn =
     (let ds = decimal (fst sn); k = length ds; n = snd sn in
      if n \<le> 21 then ds @ replicate (n - k) (CHR ''0'')
      else if k = 1 then ds @ ''e+'' @ decimal (n - 1)
      else take 1 ds @ ''.'' @ drop 1 ds @ ''e+'' @ decimal (n - 1))"

definition Number_toString :: "env \<Rightarrow> nat \<Rightarrow> string" where
  "Number_toString env i =
     (if int i \<le> MAX_SAFE_INTEGER then decimal i
      else formatDigits (shortestDigits env (int i)))"

text \<open>
  The second half of \<^verbatim>\<open>evaluate\<close>: the wildcard substitution. \<^verbatim>\<open>evaluate\<close> is private to
  the module and its only caller, \<^verbatim>\<open>expand\<close>, passes an index that passed
  \<^verbatim>\<open>Number.isInteger\<close> and is not negative: the index is a \<open>nat\<close> here.
\<close>

definition substitute :: "env \<Rightarrow> string \<Rightarrow> nat option \<Rightarrow> error + string" where
  "substitute env evaluatedDescriptor ix =
     (case ix of
        None \<Rightarrow> Inr evaluatedDescriptor
      | Some i \<Rightarrow>
          if CHR ''*'' \<in> set evaluatedDescriptor
          then Inr (replaceAll (CHR ''*'') (Number_toString env i) evaluatedDescriptor)
          else Inl IndexForNonRanged)"

definition evaluate :: "env \<Rightarrow> string \<Rightarrow> bool \<Rightarrow> nat option \<Rightarrow> error + string" where
  "evaluate env descr checksumRequired ix =
     (if descr = [] then Inl NoDescriptor
      else case matchChecksum descr of
        None \<Rightarrow>
          if checksumRequired then Inl HasNotChecksum
          else substitute env descr ix
      | Some m \<Rightarrow>
          let checksum = drop 1 m;
              evaluatedDescriptor = take (length descr - length m) descr
          in bindE (DescriptorChecksum env evaluatedDescriptor) (\<lambda>c.
               if checksum \<noteq> c then Inl InvalidChecksum
               else substitute env evaluatedDescriptor ix))"

text \<open>
  The body of a descriptor: the descriptor without its trailing checksum, when it has
  one. This is the \<^verbatim>\<open>evaluatedDescriptor\<close> of \<^verbatim>\<open>evaluate\<close> before the substitution.
\<close>

definition bodyOf :: "string \<Rightarrow> string" where
  "bodyOf d = (case matchChecksum d of None \<Rightarrow> d | Some m \<Rightarrow> take (length d - length m) d)"

section \<open>expand\<close>

text \<open>\<^verbatim>\<open>try { payment = f({ output, network }); } catch (e) {}\<close>\<close>

definition tryPayment :: "payment option \<Rightarrow> error + payment \<Rightarrow> payment option" where
  "tryPayment p r = (case r of Inl e \<Rightarrow> p | Inr q \<Rightarrow> Some q)"

text \<open>The branch \<^verbatim>\<open>addr(ADDR)\<close>, lines 257 to 286.\<close>

definition expandAddr :: "env \<Rightarrow> network \<Rightarrow> bool \<Rightarrow> string \<Rightarrow> string \<Rightarrow> error + expansion" where
  "expandAddr env net ranged canon matchedAddress =
     (if ranged then Inl AddrCannotBeRanged
      else if matchedAddress = [] then Inl CouldNotGetAddress
      else case toOutputScript env matchedAddress net of
        Inl e \<Rightarrow> Inl InvalidAddress
      | Inr out \<Rightarrow>
          let p1 = tryPayment None (p2pkh env (FromOutput out) net);
              p2 = tryPayment p1 (p2sh env (FromOutput out) net);
              p3 = tryPayment p2 (p2wpkh env (FromOutput out) net);
              p4 = tryPayment p3 (p2wsh env (FromOutput out) net);
              p5 = tryPayment p4 (p2tr env (FromOutput out) net)
          in case p5 of
               None \<Rightarrow> Inl InvalidAddress
             | Some p \<Rightarrow>
                 Inr \<lparr>payment = Some p, expandedExpression = None, miniscript = None,
                      expansionMap = None, isSegwit = None, expandedMiniscript = None,
                      redeemScript = None, witnessScript = None, isRanged = ranged,
                      canonicalExpression = canon\<rparr>)"

text \<open>
  What the four key branches share: the key expression is the first match of
  \<^verbatim>\<open>RE.reKeyExp\<close>, it must not be empty, and the canonical expression must be exactly the
  shell around it.
\<close>

definition keyExpressionOf :: "env \<Rightarrow> string \<Rightarrow> string \<Rightarrow> string \<Rightarrow> error + string" where
  "keyExpressionOf env canon pre suf =
     (case reKeyExp env canon of
        None \<Rightarrow> Inl KeyExpressionNotExtracted
      | Some ke \<Rightarrow>
          if ke = [] then Inl KeyExpressionNotExtracted
          else if canon \<noteq> pre @ ke @ suf then Inl InvalidExpression
          else Inr ke)"

text \<open>\<^verbatim>\<open>const pubkey = pKE.pubkey; if (!pubkey) throw ...\<close>\<close>

definition pubkeyOf :: "keyInfo \<Rightarrow> error + Buffer" where
  "pubkeyOf pKE = (case pubkey pKE of None \<Rightarrow> Inl NoPubkey | Some pk \<Rightarrow> Inr pk)"

text \<open>\<^verbatim>\<open>payment.redeem?.output\<close>\<close>

definition redeemOutput :: "payment \<Rightarrow> Buffer option" where
  "redeemOutput p = (case redeem p of None \<Rightarrow> None | Some r \<Rightarrow> pay_output r)"

text \<open>The branch \<^verbatim>\<open>pk(KEY)\<close>, lines 288 to 307.\<close>

definition expandPk :: "env \<Rightarrow> network \<Rightarrow> bool \<Rightarrow> bool \<Rightarrow> string \<Rightarrow> error + expansion" where
  "expandPk env net ranged canonRanged canon =
     bindE (keyExpressionOf env canon ''pk('' '')'') (\<lambda>ke.
     bindE (parseKeyExpression env ke net False) (\<lambda>pKE.
     bindE (if canonRanged then Inr None
            else bindE (pubkeyOf pKE) (\<lambda>pk.
                 bindE (p2pk env (FromPubkey pk) net) (\<lambda>p. Inr (Some p)))) (\<lambda>pay.
     Inr \<lparr>payment = pay, expandedExpression = Some ''pk(@0)'', miniscript = None,
          expansionMap = Some [(''@0'', pKE)], isSegwit = Some False,
          expandedMiniscript = None, redeemScript = None, witnessScript = None,
          isRanged = ranged, canonicalExpression = canon\<rparr>)))"

text \<open>The branch \<^verbatim>\<open>pkh(KEY)\<close>, lines 309 to 327.\<close>

definition expandPkh :: "env \<Rightarrow> network \<Rightarrow> bool \<Rightarrow> bool \<Rightarrow> string \<Rightarrow> error + expansion" where
  "expandPkh env net ranged canonRanged canon =
     bindE (keyExpressionOf env canon ''pkh('' '')'') (\<lambda>ke.
     bindE (parseKeyExpression env ke net False) (\<lambda>pKE.
     bindE (if canonRanged then Inr None
            else bindE (pubkeyOf pKE) (\<lambda>pk.
                 bindE (p2pkh env (FromPubkey pk) net) (\<lambda>p. Inr (Some p)))) (\<lambda>pay.
     Inr \<lparr>payment = pay, expandedExpression = Some ''pkh(@0)'', miniscript = None,
          expansionMap = Some [(''@0'', pKE)], isSegwit = Some False,
          expandedMiniscript = None, redeemScript = None, witnessScript = None,
          isRanged = ranged, canonicalExpression = canon\<rparr>)))"

text \<open>The branch \<^verbatim>\<open>sh(wpkh(KEY))\<close>, lines 329 to 352.\<close>

definition expandShWpkh :: "env \<Rightarrow> network \<Rightarrow> bool \<Rightarrow> bool \<Rightarrow> string \<Rightarrow> error + expansion" where
  "expandShWpkh env net ranged canonRanged canon =
     bindE (keyExpressionOf env canon ''sh(wpkh('' ''))'') (\<lambda>ke.
     bindE (parseKeyExpression env ke net True) (\<lambda>pKE.
     bindE (if canonRanged then Inr (None, None)
            else bindE (pubkeyOf pKE) (\<lambda>pk.
                 bindE (p2wpkh env (FromPubkey pk) net) (\<lambda>inner.
                 bindE (p2sh env (FromRedeem inner) net) (\<lambda>p.
                 case redeemOutput p of
                   None \<Rightarrow> Inl NoRedeemScript
                 | Some rs \<Rightarrow> Inr (Some p, Some rs))))) (\<lambda>(pay, rs).
     Inr \<lparr>payment = pay, expandedExpression = Some ''sh(wpkh(@0))'', miniscript = None,
          expansionMap = Some [(''@0'', pKE)], isSegwit = Some True,
          expandedMiniscript = None, redeemScript = rs, witnessScript = None,
          isRanged = ranged, canonicalExpression = canon\<rparr>)))"

text \<open>The branch \<^verbatim>\<open>wpkh(KEY)\<close>, lines 354 to 372.\<close>

definition expandWpkh :: "env \<Rightarrow> network \<Rightarrow> bool \<Rightarrow> bool \<Rightarrow> string \<Rightarrow> error + expansion" where
  "expandWpkh env net ranged canonRanged canon =
     bindE (keyExpressionOf env canon ''wpkh('' '')'') (\<lambda>ke.
     bindE (parseKeyExpression env ke net True) (\<lambda>pKE.
     bindE (if canonRanged then Inr None
            else bindE (pubkeyOf pKE) (\<lambda>pk.
                 bindE (p2wpkh env (FromPubkey pk) net) (\<lambda>p. Inr (Some p)))) (\<lambda>pay.
     Inr \<lparr>payment = pay, expandedExpression = Some ''wpkh(@0)'', miniscript = None,
          expansionMap = Some [(''@0'', pKE)], isSegwit = Some True,
          expandedMiniscript = None, redeemScript = None, witnessScript = None,
          isRanged = ranged, canonicalExpression = canon\<rparr>)))"

text \<open>
  The script of a miniscript branch, with its two limits: \<^verbatim>\<open>miniscript2Script\<close>, the size
  check against \<open>maxSize\<close> (whose error is \<open>tooLarge\<close>), \<^verbatim>\<open>countNonPushOnlyOPs\<close> and the
  check against \<^verbatim>\<open>MAX_OPS_PER_SCRIPT\<close>, in the order of the source.
\<close>

definition compileChecked ::
  "env \<Rightarrow> string \<Rightarrow> expansionMap \<Rightarrow> nat \<Rightarrow> error \<Rightarrow> error + Buffer" where
  "compileChecked env em emap maxSize tooLarge =
     bindE (miniscript2Script env em emap) (\<lambda>script.
     if length script > maxSize then Inl tooLarge
     else bindE (countNonPushOnlyOPs env script) (\<lambda>nonPushOnlyOps.
          if nonPushOnlyOps > MAX_OPS_PER_SCRIPT then Inl TooManyOps
          else Inr script))"

text \<open>The branch \<^verbatim>\<open>sh(wsh(miniscript))\<close>, lines 374 to 410.\<close>

definition expandShWsh ::
  "env \<Rightarrow> network \<Rightarrow> bool \<Rightarrow> bool \<Rightarrow> string \<Rightarrow> string \<Rightarrow> error + expansion" where
  "expandShWsh env net ranged canonRanged canon ms =
     (if ms = [] then Inl CouldNotGetMiniscript
      else
     bindE (expandMiniscript env ms True net) (\<lambda>(em, emap).
     bindE (if canonRanged then Inr (None, None, None)
            else bindE (compileChecked env em emap MAX_STANDARD_P2WSH_SCRIPT_SIZE
                          ScriptTooLarge) (\<lambda>script.
                 bindE (p2wsh env (FromRedeem (Payment (Some script) None None)) net) (\<lambda>inner.
                 bindE (p2sh env (FromRedeem inner) net) (\<lambda>p.
                 case redeemOutput p of
                   None \<Rightarrow> Inl NoRedeemScript
                 | Some rs \<Rightarrow> Inr (Some p, Some rs, Some script))))) (\<lambda>(pay, rs, ws).
     Inr \<lparr>payment = pay, expandedExpression = Some (''sh(wsh('' @ em @ ''))''),
          miniscript = Some ms, expansionMap = Some emap, isSegwit = Some True,
          expandedMiniscript = Some em, redeemScript = rs, witnessScript = ws,
          isRanged = ranged, canonicalExpression = canon\<rparr>)))"

text \<open>
  The heads that \<^verbatim>\<open>sh(...)\<close> admits without \<^verbatim>\<open>allowMiniscriptInP2SH\<close>: the regular
  expression of lines 424 to 426, which \<^verbatim>\<open>search\<close> must find at position 0.
\<close>

definition shHeads :: "string list" where
  "shHeads = [''pk('', ''pkh('', ''wpkh('', ''combo('', ''multi('', ''sortedmulti('',
              ''multi_a('', ''sortedmulti_a('']"

definition startsWithShHead :: "string \<Rightarrow> bool" where
  "startsWithShHead ms = list_ex (\<lambda>h. take (length h) ms = h) shHeads"

text \<open>The branch \<^verbatim>\<open>sh(miniscript)\<close>, lines 412 to 455.\<close>

definition expandSh ::
  "env \<Rightarrow> network \<Rightarrow> bool \<Rightarrow> bool \<Rightarrow> bool \<Rightarrow> string \<Rightarrow> string \<Rightarrow> error + expansion" where
  "expandSh env net allowMiniscriptInP2SH ranged canonRanged canon ms =
     (if ms = [] then Inl CouldNotGetMiniscript
      else if \<not> allowMiniscriptInP2SH \<and> \<not> startsWithShHead ms then Inl MiniscriptOnlyInWsh
      else
     bindE (expandMiniscript env ms False net) (\<lambda>(em, emap).
     bindE (if canonRanged then Inr (None, None)
            else bindE (compileChecked env em emap MAX_SCRIPT_ELEMENT_SIZE
                          P2SHScriptTooLarge) (\<lambda>script.
                 bindE (p2sh env (FromRedeem (Payment (Some script) None None)) net) (\<lambda>p.
                 Inr (Some p, Some script)))) (\<lambda>(pay, rs).
     Inr \<lparr>payment = pay, expandedExpression = Some (''sh('' @ em @ '')''),
          miniscript = Some ms, expansionMap = Some emap, isSegwit = Some False,
          expandedMiniscript = Some em, redeemScript = rs, witnessScript = None,
          isRanged = ranged, canonicalExpression = canon\<rparr>)))"

text \<open>The branch \<^verbatim>\<open>wsh(miniscript)\<close>, lines 457 to 485.\<close>

definition expandWsh ::
  "env \<Rightarrow> network \<Rightarrow> bool \<Rightarrow> bool \<Rightarrow> string \<Rightarrow> string \<Rightarrow> error + expansion" where
  "expandWsh env net ranged canonRanged canon ms =
     (if ms = [] then Inl CouldNotGetMiniscript
      else
     bindE (expandMiniscript env ms True net) (\<lambda>(em, emap).
     bindE (if canonRanged then Inr (None, None)
            else bindE (compileChecked env em emap MAX_STANDARD_P2WSH_SCRIPT_SIZE
                          ScriptTooLarge) (\<lambda>script.
                 bindE (p2wsh env (FromRedeem (Payment (Some script) None None)) net) (\<lambda>p.
                 Inr (Some p, Some script)))) (\<lambda>(pay, ws).
     Inr \<lparr>payment = pay, expandedExpression = Some (''wsh('' @ em @ '')''),
          miniscript = Some ms, expansionMap = Some emap, isSegwit = Some True,
          expandedMiniscript = Some em, redeemScript = None, witnessScript = ws,
          isRanged = ranged, canonicalExpression = canon\<rparr>)))"

text \<open>
  The chain of \<^verbatim>\<open>if ... else if\<close> of lines 256 to 487, on the canonical expression; the
  first pattern that matches decides. \<open>shellOf\<close> is the chain of tests, with group 1 of the
  match where the branch reads it, and \<open>dispatch\<close> runs the branch.
\<close>

datatype shell =
  Addr string | Pk | Pkh | ShWpkh | Wpkh | ShWsh string | Sh string | Wsh string | Unparseable

definition shellOf :: "env \<Rightarrow> string \<Rightarrow> shell" where
  "shellOf env canon =
     (case reAddrAnchored env canon of
        Some a \<Rightarrow> Addr a
      | None \<Rightarrow>
      if rePkAnchored env canon then Pk
      else if rePkhAnchored env canon then Pkh
      else if reShWpkhAnchored env canon then ShWpkh
      else if reWpkhAnchored env canon then Wpkh
      else case reShWshMiniscriptAnchored env canon of
        Some ms \<Rightarrow> ShWsh ms
      | None \<Rightarrow>
      case reShMiniscriptAnchored env canon of
        Some ms \<Rightarrow> Sh ms
      | None \<Rightarrow>
      case reWshMiniscriptAnchored env canon of
        Some ms \<Rightarrow> Wsh ms
      | None \<Rightarrow> Unparseable)"

definition dispatch :: "env \<Rightarrow> network \<Rightarrow> bool \<Rightarrow> bool \<Rightarrow> string \<Rightarrow> error + expansion" where
  "dispatch env net allowMiniscriptInP2SH ranged canon =
     (let canonRanged = (CHR ''*'' \<in> set canon) in
      case shellOf env canon of
        Addr a \<Rightarrow> expandAddr env net ranged canon a
      | Pk \<Rightarrow> expandPk env net ranged canonRanged canon
      | Pkh \<Rightarrow> expandPkh env net ranged canonRanged canon
      | ShWpkh \<Rightarrow> expandShWpkh env net ranged canonRanged canon
      | Wpkh \<Rightarrow> expandWpkh env net ranged canonRanged canon
      | ShWsh ms \<Rightarrow> expandShWsh env net ranged canonRanged canon ms
      | Sh ms \<Rightarrow> expandSh env net allowMiniscriptInP2SH ranged canonRanged canon ms
      | Wsh ms \<Rightarrow> expandWsh env net ranged canonRanged canon ms
      | Unparseable \<Rightarrow> Inl CouldNotParse)"

text \<open>
  \<^verbatim>\<open>descriptor || expression\<close>: the first when it is a string that is not empty, else the
  second; an absent parameter and the empty string are both falsy, and both are \<open>[]\<close> here.
\<close>

definition truthy :: "string option \<Rightarrow> bool" where
  "truthy s = (s \<noteq> None \<and> s \<noteq> Some [])"

definition descriptorOrExpression :: "string option \<Rightarrow> string option \<Rightarrow> string" where
  "descriptorOrExpression d e =
     (if truthy d then (case d of None \<Rightarrow> [] | Some x \<Rightarrow> x)
      else (case e of None \<Rightarrow> [] | Some x \<Rightarrow> x))"

text \<open>\<^verbatim>\<open>!Number.isInteger(index) || index < 0\<close>\<close>

fun invalidIndex :: "number \<Rightarrow> bool" where
  "invalidIndex NonInteger = True"
| "invalidIndex (Integer i) = (i < 0)"

fun indexValue :: "number \<Rightarrow> nat" where
  "indexValue (Integer i) = nat i"
| "indexValue NonInteger = 0"

text \<open>
  \<^verbatim>\<open>expand\<close>, lines 214 to 501. The defaults of the parameters (\<^verbatim>\<open>checksumRequired = false\<close>,
  \<^verbatim>\<open>network = networks.bitcoin\<close>, \<^verbatim>\<open>allowMiniscriptInP2SH = false\<close>) are the caller's to
  pass.
\<close>

definition expand ::
  "env \<Rightarrow> string option \<Rightarrow> string option \<Rightarrow> number option \<Rightarrow> bool \<Rightarrow> network \<Rightarrow> bool
   \<Rightarrow> error + expansion" where
  "expand env descr expression ix checksumRequired net allowMiniscriptInP2SH =
     (if truthy descr \<and> truthy expression then Inl ExpressionDeprecated
      else let d = descriptorOrExpression descr expression in
      if d = [] then Inl DescriptorNotProvided
      else let ranged = (CHR ''*'' \<in> set d) in
      if (case ix of None \<Rightarrow> False | Some n \<Rightarrow> invalidIndex n) then Inl InvalidIndex
      else bindE (evaluate env d checksumRequired (map_option indexValue ix)) (\<lambda>canon.
           dispatch env net allowMiniscriptInP2SH ranged canon))"

section \<open>The class Output\<close>

text \<open>
  What a caller can pass as \<^verbatim>\<open>descriptor\<close> at run time: the constructor tests
  \<^verbatim>\<open>typeof descriptor !== 'string'\<close> itself.
\<close>

datatype jsValue = Str string | Undefined | Num number | Buf Buffer

fun isString :: "jsValue \<Rightarrow> bool" where
  "isString (Str s) = True"
| "isString v = False"

text \<open>The private fields of an \<^verbatim>\<open>Output\<close>; \<open>o_payment\<close> is \<^verbatim>\<open>#payment\<close>, and so on.\<close>

record Output =
  o_payment :: payment
  o_preimages :: "preimage list"
  o_signersPubKeys :: "Buffer list"
  o_miniscript :: "string option"
  o_witnessScript :: "Buffer option"
  o_redeemScript :: "Buffer option"
  o_isSegwit :: "bool option"
  o_expandedExpression :: "string option"
  o_expandedMiniscript :: "string option"
  o_expansionMap :: "expansionMap option"
  o_network :: network

text \<open>\<^verbatim>\<open>getScriptPubKey\<close>, on the payment.\<close>

definition scriptPubKeyOf :: "payment \<Rightarrow> error + Buffer" where
  "scriptPubKeyOf p = (case pay_output p of None \<Rightarrow> Inl NoOutputScript | Some s \<Rightarrow> Inr s)"

text \<open>
  \<^verbatim>\<open>Object.values(this.#expansionMap).map(keyInfo => ...)\<close>: the pubkeys in the order of
  the map; the first key without one throws.
\<close>

fun pubkeysOf :: "expansionMap \<Rightarrow> error + Buffer list" where
  "pubkeysOf [] = Inr []"
| "pubkeysOf ((k, keyInfo) # rest) =
     (case pubkey keyInfo of
        None \<Rightarrow> Inl NoPubkey
      | Some pk \<Rightarrow> bindE (pubkeysOf rest) (\<lambda>pks. Inr (pk # pks)))"

text \<open>The constructor, lines 555 to 674.\<close>

definition Output_new ::
  "env \<Rightarrow> jsValue \<Rightarrow> number option \<Rightarrow> bool \<Rightarrow> bool \<Rightarrow> network \<Rightarrow> preimage list
   \<Rightarrow> Buffer list option \<Rightarrow> error + Output" where
  "Output_new env descr ix checksumRequired allowMiniscriptInP2SH net preimages signersPubKeys =
     (case descr of
        Str d \<Rightarrow>
          bindE (expand env (Some d) None ix checksumRequired net allowMiniscriptInP2SH)
            (\<lambda>expandedResult.
          if isRanged expandedResult \<and> ix = None then Inl IndexNotProvided
          else case payment expandedResult of
            None \<Rightarrow> Inl NoPayment
          | Some p \<Rightarrow>
              bindE (case signersPubKeys of
                       Some ks \<Rightarrow> Inr ks
                     | None \<Rightarrow>
                         (case expansionMap expandedResult of
                            Some emap \<Rightarrow> pubkeysOf emap
                          | None \<Rightarrow>
                              if reAddrAnchored env (canonicalExpression expandedResult) = None
                              then Inl ExpansionMapNotAvailable
                              else bindE (scriptPubKeyOf p) (\<lambda>spk. Inr [spk])))
                (\<lambda>signers.
              Inr \<lparr>o_payment = p, o_preimages = preimages, o_signersPubKeys = signers,
                   o_miniscript = miniscript expandedResult,
                   o_witnessScript = witnessScript expandedResult,
                   o_redeemScript = redeemScript expandedResult,
                   o_isSegwit = isSegwit expandedResult,
                   o_expandedExpression = expandedExpression expandedResult,
                   o_expandedMiniscript = expandedMiniscript expandedResult,
                   o_expansionMap = expansionMap expandedResult,
                   o_network = net\<rparr>))
      | _ \<Rightarrow> Inl InvalidDescriptorType)"

text \<open>
  \<^verbatim>\<open>#getTimeConstraints\<close>, lines 690 to 717. \<^verbatim>\<open>if (miniscript)\<close> is a truthiness test: an
  absent miniscript and the empty string both take the \<^verbatim>\<open>else\<close>.
\<close>

definition getTimeConstraints :: "env \<Rightarrow> Output \<Rightarrow> error + timeConstraints option" where
  "getTimeConstraints env out =
     (if truthy (o_miniscript out) then
        (case (o_expandedMiniscript out, o_expansionMap out) of
           (Some em, Some emap) \<Rightarrow>
             let fakeSignatures =
                   map (\<lambda>pk. \<lparr>sig_pubkey = pk, signature = replicate 64 0\<rparr>)
                     (o_signersPubKeys out)
             in bindE (satisfyMiniscript env em emap fakeSignatures (o_preimages out) None)
                  (\<lambda>s. Inr (Some \<lparr>nLockTime = sat_nLockTime s, nSequence = sat_nSequence s\<rparr>))
         | _ \<Rightarrow> Inl TimeConstraintsNotExpanded)
      else Inr None)"

definition getSequence :: "env \<Rightarrow> Output \<Rightarrow> error + nat option" where
  "getSequence env out =
     bindE (getTimeConstraints env out)
       (\<lambda>tc. Inr (case tc of None \<Rightarrow> None | Some t \<Rightarrow> nSequence t))"

definition getLockTime :: "env \<Rightarrow> Output \<Rightarrow> error + nat option" where
  "getLockTime env out =
     bindE (getTimeConstraints env out)
       (\<lambda>tc. Inr (case tc of None \<Rightarrow> None | Some t \<Rightarrow> nLockTime t))"

definition getScriptPubKey :: "Output \<Rightarrow> error + Buffer" where
  "getScriptPubKey out = scriptPubKeyOf (o_payment out)"

definition getWitnessScript :: "Output \<Rightarrow> Buffer option" where
  "getWitnessScript out = o_witnessScript out"

definition getRedeemScript :: "Output \<Rightarrow> Buffer option" where
  "getRedeemScript out = o_redeemScript out"

text \<open>
  \<^verbatim>\<open>getScriptSatisfaction\<close>, lines 752 to 795. The object literal evaluates
  \<^verbatim>\<open>this.getLockTime()\<close> and then \<^verbatim>\<open>this.getSequence()\<close> before the satisfier runs.
\<close>

definition getScriptSatisfaction :: "env \<Rightarrow> Output \<Rightarrow> partialSig list \<Rightarrow> error + Buffer" where
  "getScriptSatisfaction env out signatures =
     (case (o_miniscript out, o_expandedMiniscript out, o_expansionMap out) of
        (Some ms, Some em, Some emap) \<Rightarrow>
          bindE (getLockTime env out) (\<lambda>lt.
          bindE (getSequence env out) (\<lambda>sq.
          bindE (satisfyMiniscript env em emap signatures (o_preimages out)
                   (Some \<lparr>nLockTime = lt, nSequence = sq\<rparr>)) (\<lambda>s.
          case scriptSatisfaction s of
            None \<Rightarrow> Inl NoValidSatisfaction
          | Some sat \<Rightarrow> Inr sat)))
      | _ \<Rightarrow> Inl SatisfactionNotExpanded)"

text \<open>
  \<^verbatim>\<open>eqBuffers\<close>, lines 957 to 960: two buffers are compared by content, anything else with
  \<^verbatim>\<open>===\<close>, which holds of two \<^verbatim>\<open>undefined\<close> and fails between \<^verbatim>\<open>undefined\<close> and a buffer.
\<close>

fun eqBuffers :: "Buffer option \<Rightarrow> Buffer option \<Rightarrow> bool" where
  "eqBuffers (Some buf1) (Some buf2) = (buf1 = buf2)"
| "eqBuffers None None = True"
| "eqBuffers None (Some buf2) = False"
| "eqBuffers (Some buf1) None = False"

text \<open>The scriptPubKey that the PSBT input spends, lines 941 to 952.\<close>

definition observedScriptPubKey :: "env \<Rightarrow> psbtInput \<Rightarrow> txInput \<Rightarrow> error + Buffer" where
  "observedScriptPubKey env input txInput =
     (case witnessUtxo input of
        Some script \<Rightarrow> Inr script
      | None \<Rightarrow>
          (case nonWitnessUtxo input of
             None \<Rightarrow> Inl NoUtxo
           | Some raw \<Rightarrow>
               bindE (fromBuffer env raw) (\<lambda>outs.
               if vout txInput < length outs then Inr (outs ! vout txInput)
               else Inl UtxoShouldExist)))"

text \<open>The sequence the input must carry, lines 953 to 956.\<close>

definition expectedSequence :: "nat option \<Rightarrow> nat \<Rightarrow> nat" where
  "expectedSequence sq lt =
     (case sq of
        Some n \<Rightarrow> n
      | None \<Rightarrow> if lt \<noteq> 0 then 0xfffffffe else 0xffffffff)"

text \<open>\<^verbatim>\<open>#assertPsbtInput\<close>, lines 935 to 972.\<close>

definition assertPsbtInput :: "env \<Rightarrow> Output \<Rightarrow> psbt \<Rightarrow> nat \<Rightarrow> error + unit" where
  "assertPsbtInput env out p i =
     (if \<not> (i < length (inputs p) \<and> i < length (txInputs p)) then Inl InvalidInputOrTxInput
      else let input = inputs p ! i; txInput = txInputs p ! i in
      bindE (observedScriptPubKey env input txInput) (\<lambda>scriptPubKey.
      bindE (getLockTime env out) (\<lambda>lt.
      let lockTime = (case lt of None \<Rightarrow> 0 | Some n \<Rightarrow> n) in
      bindE (getSequence env out) (\<lambda>sq.
      let sq' = expectedSequence sq lockTime in
      bindE (getScriptPubKey out) (\<lambda>spk.
      if scriptPubKey \<noteq> spk \<or>
         Some sq' \<noteq> sequence txInput \<or>
         lockTime \<noteq> locktime p \<or>
         \<not> eqBuffers (getWitnessScript out) (in_witnessScript input) \<or>
         \<not> eqBuffers (getRedeemScript out) (in_redeemScript input)
      then Inl CannotFinalize
      else Inr ())))))"

text \<open>
  \<^verbatim>\<open>finalizePsbtInput\<close>, lines 1004 to 1045. The PSBT is mutated in place by
  \<^verbatim>\<open>psbt.finalizeInput\<close>; here the finalized PSBT is the result.
\<close>

definition finalizePsbtInput :: "env \<Rightarrow> Output \<Rightarrow> nat \<Rightarrow> psbt \<Rightarrow> bool \<Rightarrow> error + psbt" where
  "finalizePsbtInput env out i p validate =
     bindE (if validate
            then bindE (validateSignaturesOfInput env p i) (\<lambda>ok.
                 if ok then Inr () else Inl InvalidSignatures)
            else Inr ()) (\<lambda>_.
     case (if i < length (inputs p) then partialSig (inputs p ! i) else None) of
       None \<Rightarrow> Inl NoSignatures
     | Some signatures \<Rightarrow>
         bindE (assertPsbtInput env out p i) (\<lambda>_.
         if \<not> truthy (o_miniscript out) then finalizeInput env p i None
         else bindE (getScriptSatisfaction env out signatures) (\<lambda>scriptSatisfaction.
              finalizeInput env p i (Some (scriptSatisfaction, o_network out)))))"

section \<open>A set of collaborators to run the model on\<close>

text \<open>
  The theorems below hold for every \<open>env\<close>. To run the model on concrete descriptors,
  \<open>env0\<close> is a small stand-in for the collaborators: a key expression is the text inside
  the innermost parentheses and its pubkey is its bytes (none while it holds a wildcard);
  a miniscript compiles to its key followed by \<^verbatim>\<open>OP_CHECKSIG\<close>; a payment is a tag byte
  before its data, and an address is the text of its output script; the checksum of a
  body repeats the character of the alphabet at the position of the sum of the body's
  character codes, modulo 32; the digits of a number above \<^verbatim>\<open>Number.MAX_SAFE_INTEGER\<close>
  are those of \<open>10^21\<close>, one digit 1 of magnitude 22, the only such number that is run.
  The four patterns with a group are the shells
  \<^verbatim>\<open>addr(...)\<close>, \<^verbatim>\<open>sh(wsh(...))\<close>, \<^verbatim>\<open>sh(...)\<close> and \<^verbatim>\<open>wsh(...)\<close> anchored at both ends and
  followed by an optional checksum, the shape in which the package's \<^verbatim>\<open>re.ts\<close> composes
  them; \<open>matchShell pre suf s\<close> is group 1 of such a match, the text between the
  parentheses. A text that ends in a checksum does not end in a parenthesis, so the
  shell is matched on the body of the text.
\<close>

definition matchShell :: "string \<Rightarrow> string \<Rightarrow> string \<Rightarrow> string option" where
  "matchShell pre suf s =
     (let b = bodyOf s in
      if length pre + length suf \<le> length b \<and> take (length pre) b = pre \<and>
         drop (length b - length suf) b = suf
      then Some (take (length b - length pre - length suf) (drop (length pre) b))
      else None)"

definition bytesOf :: "string \<Rightarrow> Buffer" where
  "bytesOf s = map (\<lambda>c. of_nat (of_char c)) s"

definition keyBetween :: "string \<Rightarrow> string" where
  "keyBetween s =
     rev (takeWhile (\<lambda>c. c \<noteq> CHR ''('') (rev (takeWhile (\<lambda>c. c \<noteq> CHR '')'') s)))"

definition toyKey :: "string \<Rightarrow> keyInfo" where
  "toyKey ke =
     \<lparr>keyExpression = ke,
      pubkey = (if CHR ''*'' \<in> set ke then None else Some (bytesOf ke))\<rparr>"

definition toyChecksumChar :: "string \<Rightarrow> char" where
  "toyChecksumChar body = CHECKSUM_CHARSET ! (sum_list (map of_char body) mod 32)"

definition toyChecksum :: "string \<Rightarrow> string" where
  "toyChecksum body = map (\<lambda>i. toyChecksumChar body) [1, 2, 3, 4, 5, 6, 7, 8 :: nat]"

definition toyPayment :: "8 word \<Rightarrow> paymentArg \<Rightarrow> network \<Rightarrow> error + payment" where
  "toyPayment tag arg net =
     (case arg of
        FromOutput out \<Rightarrow>
          if take 1 out = [tag] then Inr (Payment (Some out) None None)
          else Inl (External ''output'')
      | FromPubkey pk \<Rightarrow> Inr (Payment (Some (tag # pk)) None None)
      | FromRedeem r \<Rightarrow>
          (case pay_output r of
             None \<Rightarrow> Inl (External ''redeem'')
           | Some script \<Rightarrow> Inr (Payment (Some (tag # take 2 script)) None (Some r))))"

definition env0 :: env where
  "env0 =
     \<lparr>DescriptorChecksum = (\<lambda>body. Inr (toyChecksum body)),
      shortestDigits = (\<lambda>i. (1, 22)),
      reKeyExp = (\<lambda>s. Some (keyBetween s)),
      rePkAnchored = (\<lambda>s. take 3 s = ''pk(''),
      rePkhAnchored = (\<lambda>s. take 4 s = ''pkh(''),
      reShWpkhAnchored = (\<lambda>s. take 8 s = ''sh(wpkh(''),
      reWpkhAnchored = (\<lambda>s. take 5 s = ''wpkh(''),
      reAddrAnchored = matchShell ''addr('' '')'',
      reShWshMiniscriptAnchored = matchShell ''sh(wsh('' ''))'',
      reShMiniscriptAnchored = matchShell ''sh('' '')'',
      reWshMiniscriptAnchored = matchShell ''wsh('' '')'',
      parseKeyExpression = (\<lambda>ke net segwit. Inr (toyKey ke)),
      expandMiniscript = (\<lambda>ms segwit net. Inr (''pk(@0)'', [(''@0'', toyKey (keyBetween ms))])),
      miniscript2Script = (\<lambda>em emap. bindE (pubkeysOf emap) (\<lambda>pks. Inr (concat pks @ [0xac]))),
      satisfyMiniscript = (\<lambda>em emap sigs pre tc.
        Inr \<lparr>scriptSatisfaction = Some (concat (map signature sigs)),
             sat_nLockTime = None, sat_nSequence = Some 144\<rparr>),
      toOutputScript = (\<lambda>a net. if a = ''unknown'' then Inl (External ''address'')
                                 else Inr (bytesOf a)),
      p2pk = toyPayment 0x21,
      p2pkh = toyPayment 0x31,
      p2sh = toyPayment 0x33,
      p2wpkh = toyPayment 0x71,
      p2wsh = toyPayment 0x77,
      p2tr = toyPayment 0x70,
      decompile = (\<lambda>script. Some (map (\<lambda>b. Opcode (unat b)) script)),
      fromBuffer = (\<lambda>raw. Inr [raw]),
      validateSignaturesOfInput = (\<lambda>p i. Inr True),
      finalizeInput = (\<lambda>p i sat. Inr p)\<rparr>"

text \<open>Two outputs built on \<open>env0\<close>, and a PSBT that spends each of them.\<close>

definition output_wsh :: Output where
  "output_wsh =
     \<lparr>o_payment = Payment (Some [0x77, 0x4B, 0xAC]) None
                    (Some (Payment (Some [0x4B, 0xAC]) None None)),
      o_preimages = [], o_signersPubKeys = [[0x4B]],
      o_miniscript = Some ''pk(K)'', o_witnessScript = Some [0x4B, 0xAC],
      o_redeemScript = None, o_isSegwit = Some True,
      o_expandedExpression = Some ''wsh(pk(@0))'',
      o_expandedMiniscript = Some ''pk(@0)'',
      o_expansionMap = Some [(''@0'', \<lparr>keyExpression = ''K'', pubkey = Some [0x4B]\<rparr>)],
      o_network = bitcoin\<rparr>"

definition output_pkh :: Output where
  "output_pkh =
     \<lparr>o_payment = Payment (Some [0x31, 0x4B]) None None,
      o_preimages = [], o_signersPubKeys = [[0x4B]],
      o_miniscript = None, o_witnessScript = None,
      o_redeemScript = None, o_isSegwit = Some False,
      o_expandedExpression = Some ''pkh(@0)'',
      o_expandedMiniscript = None,
      o_expansionMap = Some [(''@0'', \<lparr>keyExpression = ''K'', pubkey = Some [0x4B]\<rparr>)],
      o_network = bitcoin\<rparr>"

definition psbt_wsh :: psbt where
  "psbt_wsh =
     \<lparr>inputs = [\<lparr>witnessUtxo = Some [0x77, 0x4B, 0xAC], nonWitnessUtxo = None,
                 in_witnessScript = Some [0x4B, 0xAC], in_redeemScript = None,
                 partialSig = Some [\<lparr>sig_pubkey = [0x4B], signature = [1, 2, 3]\<rparr>]\<rparr>],
      txInputs = [\<lparr>sequence = Some 144, vout = 0\<rparr>],
      locktime = 0\<rparr>"

definition psbt_pkh :: psbt where
  "psbt_pkh =
     \<lparr>inputs = [\<lparr>witnessUtxo = None, nonWitnessUtxo = Some [0x31, 0x4B],
                 in_witnessScript = None, in_redeemScript = None,
                 partialSig = Some [\<lparr>sig_pubkey = [0x4B], signature = [1, 2, 3]\<rparr>]\<rparr>],
      txInputs = [\<lparr>sequence = Some 0xffffffff, vout = 0\<rparr>],
      locktime = 0\<rparr>"


text \<open>
  The last success of a list of trials, in the words of the spec for \<^verbatim>\<open>addr(...)\<close>: "the
  last successful parse is retained".
\<close>

primrec lastSuccess :: "(error + payment) list \<Rightarrow> payment option" where
  "lastSuccess [] = None"
| "lastSuccess (r # rs) =
     (case lastSuccess rs of
        Some p \<Rightarrow> Some p
      | None \<Rightarrow> (case r of Inl e \<Rightarrow> None | Inr p \<Rightarrow> Some p))"

text \<open>
  Variants of \<open>env0\<close>: a taproot parser that accepts every output script, and miniscript
  compilers whose scripts exceed a limit.
\<close>

definition env_taproot :: env where
  "env_taproot =
     env0\<lparr>p2tr := (\<lambda>arg net. case arg of
                       FromOutput out \<Rightarrow> Inr (Payment (Some out) (Some ''taproot'') None)
                     | _ \<Rightarrow> Inl (External ''p2tr''))\<rparr>"

definition env_large :: env where
  "env_large = env0\<lparr>miniscript2Script := (\<lambda>em emap. Inr (replicate 3601 0))\<rparr>"

definition env_ops :: env where
  "env_ops = env0\<lparr>miniscript2Script := (\<lambda>em emap. Inr (replicate 202 0xAC))\<rparr>"

definition env_p2sh_large :: env where
  "env_p2sh_large = env0\<lparr>miniscript2Script := (\<lambda>em emap. Inr (replicate 521 0))\<rparr>"

section \<open>Auxiliary facts\<close>

lemma bindE_Inl [simp]: "bindE (Inl e) f = Inl e"
  by (simp add: bindE_def)

lemma bindE_Inr [simp]: "bindE (Inr x) f = f x"
  by (simp add: bindE_def)

lemma bindE_eq_Inr: "bindE m f = Inr y \<longleftrightarrow> (\<exists>x. m = Inr x \<and> f x = Inr y)"
  by (cases m) simp_all

lemma eqBuffers_iff: "eqBuffers a b \<longleftrightarrow> a = b"
  by (cases a; cases b) simp_all

subsection \<open>Patterns\<close>



lemma star_not_checksum: "CHR ''*'' \<notin> set CHECKSUM_CHARSET"
  by (simp add: CHECKSUM_CHARSET_def)


lemma matchChecksum_length: "matchChecksum d = Some m \<Longrightarrow> length m = 9 \<and> 9 \<le> length d"
  by (auto simp: matchChecksum_def Let_def split: if_splits)

lemma set_bodyOf: "set (bodyOf d) \<subseteq> set d"
  by (auto simp: bodyOf_def split: option.splits dest: in_set_takeD)

subsection \<open>Numerals\<close>

lemma decimal_chars: "set (decimal n) \<subseteq> set ''0123456789''"
proof (induction n rule: decimal.induct)
  case (1 n)
  have d: "\<And>k. k < 10 \<Longrightarrow> ''0123456789'' ! k \<in> set ''0123456789''"
    by (rule nth_mem) simp
  show ?case
  proof (cases "n < 10")
    case True
    then show ?thesis
      using d [of n] by (subst decimal.simps) simp
  next
    case False
    have "n mod 10 < 10" by simp
    from d [OF this] 1 [OF False] False show ?thesis
      by (subst decimal.simps) simp
  qed
qed

lemma decimal_no_star: "CHR ''*'' \<notin> set (decimal n)"
  using decimal_chars [of n] by auto

lemma formatDigits_no_star: "CHR ''*'' \<notin> set (formatDigits sn)"
  using decimal_no_star
  by (auto simp: formatDigits_def Let_def dest: in_set_takeD in_set_dropD)

lemma Number_toString_no_star: "CHR ''*'' \<notin> set (Number_toString env i)"
  by (simp add: Number_toString_def decimal_no_star formatDigits_no_star)

lemma replaceAll_no_star:
  "CHR ''*'' \<notin> set r \<Longrightarrow> CHR ''*'' \<notin> set (replaceAll (CHR ''*'') r s)"
  by (induction s) (auto simp: replaceAll_def)

lemma Number_toString_safe:
  "int i \<le> MAX_SAFE_INTEGER \<Longrightarrow> Number_toString env i = decimal i"
  by (simp add: Number_toString_def)

lemma decimal_nonempty: "decimal n \<noteq> []"
  by (subst decimal.simps) simp

lemma formatDigits_nonempty: "formatDigits sn \<noteq> []"
proof -
  have "decimal (fst sn) \<noteq> []" by (rule decimal_nonempty)
  then show ?thesis by (simp add: formatDigits_def Let_def)
qed

lemma Number_toString_nonempty: "Number_toString env i \<noteq> []"
  by (simp add: Number_toString_def decimal_nonempty formatDigits_nonempty)

lemma decimal_chars': "set (decimal n) \<subseteq> set ''0123456789.e+''"
proof -
  have "set ''0123456789'' \<subseteq> set ''0123456789.e+''" by auto
  with decimal_chars [of n] show ?thesis by (rule subset_trans)
qed

lemma formatDigits_chars: "set (formatDigits sn) \<subseteq> set ''0123456789.e+''"
proof -
  let ?A = "set ''0123456789.e+''"
  have d: "set (decimal n) \<subseteq> ?A" for n by (rule decimal_chars')
  have t: "set (take k (decimal n)) \<subseteq> ?A" for k n
    using set_take_subset [of k "decimal n"] d [of n] by (rule subset_trans)
  have r: "set (drop k (decimal n)) \<subseteq> ?A" for k n
    using set_drop_subset [of k "decimal n"] d [of n] by (rule subset_trans)
  have z: "set (replicate k (CHR ''0'')) \<subseteq> ?A" for k
    by (simp add: set_replicate_conv_if)
  have e: "set ''e+'' \<subseteq> ?A" and p: "set ''.'' \<subseteq> ?A" by simp_all
  have 1: "set (decimal (fst sn) @ replicate (snd sn - length (decimal (fst sn))) (CHR ''0'')) \<subseteq> ?A"
    unfolding set_append using d z by (rule Un_least)
  have 2: "set (decimal (fst sn) @ ''e+'' @ decimal (snd sn - 1)) \<subseteq> ?A"
    unfolding set_append using d e by (intro Un_least)
  have 3: "set (take 1 (decimal (fst sn)) @ ''.'' @ drop 1 (decimal (fst sn)) @ ''e+'' @
      decimal (snd sn - 1)) \<subseteq> ?A"
    unfolding set_append using d t r e p by (intro Un_least)
  show ?thesis
  proof (cases "snd sn \<le> 21")
    case True
    with 1 show ?thesis
      unfolding formatDigits_def Let_def by (simp only: if_True)
  next
    case False
    show ?thesis
    proof (cases "length (decimal (fst sn)) = 1")
      case True
      with False 2 show ?thesis
        unfolding formatDigits_def Let_def by (simp only: if_True if_False refl)
    next
      case notone: False
      with False 3 show ?thesis
        unfolding formatDigits_def Let_def by (simp only: if_False)
    qed
  qed
qed

lemma Number_toString_chars: "set (Number_toString env i) \<subseteq> set ''0123456789.e+''"
proof (cases "int i \<le> MAX_SAFE_INTEGER")
  case True
  then have "Number_toString env i = decimal i"
    by (rule Number_toString_safe)
  then show ?thesis
    by (simp only: decimal_chars')
next
  case False
  then have "Number_toString env i = formatDigits (shortestDigits env (int i))"
    by (simp only: Number_toString_def if_False)
  then show ?thesis
    by (simp only: formatDigits_chars)
qed

lemma replaceAll_nonempty:
  assumes "c \<in> set b" and "r \<noteq> []"
  shows "replaceAll c r b \<noteq> []"
proof -
  from assms(1) obtain xs ys where "b = xs @ c # ys"
    by (meson split_list)
  then have "replaceAll c r b = replaceAll c r xs @ r @ replaceAll c r ys"
    by (simp add: replaceAll_def)
  with assms(2) show ?thesis by simp
qed

subsection \<open>evaluate\<close>

lemma substitute_Inr:
  assumes "substitute env b ix = Inr c"
  shows "(case ix of None \<Rightarrow> c = b
          | Some i \<Rightarrow> CHR ''*'' \<in> set b \<and> c = replaceAll (CHR ''*'') (Number_toString env i) b)"
  using assms by (auto simp: substitute_def split: option.splits if_splits)

lemma evaluate_Inr:
  assumes "evaluate env d cr ix = Inr c"
  shows "d \<noteq> [] \<and> substitute env (bodyOf d) ix = Inr c \<and>
    (case matchChecksum d of None \<Rightarrow> \<not> cr
     | Some m \<Rightarrow> DescriptorChecksum env (bodyOf d) = Inr (drop 1 m))"
proof (cases "matchChecksum d")
  case None
  with assms show ?thesis
    by (auto simp: evaluate_def bodyOf_def split: if_splits)
next
  case (Some m)
  with assms show ?thesis
    by (auto simp: evaluate_def bodyOf_def Let_def bindE_eq_Inr split: if_splits)
qed

lemma evaluate_no_checksum:
  assumes "d \<noteq> []" and "matchChecksum d = None"
  shows "evaluate env d False None = Inr d"
  using assms by (simp add: evaluate_def substitute_def)

lemma evaluate_star:
  assumes "evaluate env d cr ix = Inr c" and "CHR ''*'' \<in> set c"
  shows "CHR ''*'' \<in> set d \<and> ix = None"
proof -
  from evaluate_Inr [OF assms(1)] have s: "substitute env (bodyOf d) ix = Inr c" by simp
  show ?thesis
  proof (cases ix)
    case None
    with substitute_Inr [OF s] have "c = bodyOf d" by simp
    with assms(2) set_bodyOf [of d] None show ?thesis by auto
  next
    case (Some i)
    with substitute_Inr [OF s] have "c = replaceAll (CHR ''*'') (Number_toString env i) (bodyOf d)"
      by simp
    with replaceAll_no_star [OF Number_toString_no_star] assms(2) show ?thesis by auto
  qed
qed

subsection \<open>The branches of expand\<close>

lemma keyExpressionOf_Inr:
  "keyExpressionOf env canon pre suf = Inr ke \<Longrightarrow> canon = pre @ ke @ suf \<and> ke \<noteq> []"
  by (auto simp: keyExpressionOf_def split: option.splits if_splits)

lemma keyPayment_Inr:
  assumes "(if cr then Inr None
            else bindE (pubkeyOf pKE) (\<lambda>pk. bindE (f pk) (\<lambda>p. Inr (Some p)))) = Inr pay"
  shows "pay = None \<longleftrightarrow> cr"
  using assms by (auto simp: bindE_eq_Inr split: if_splits)

lemma expandPk_Inr:
  assumes "expandPk env net ranged cr canon = Inr r"
  shows "canonicalExpression r = canon \<and> isRanged r = ranged \<and> (payment r = None \<longleftrightarrow> cr) \<and>
     redeemScript r = None \<and> witnessScript r = None \<and> miniscript r = None \<and>
     canon \<noteq> [] \<and> last canon = CHR '')''"
proof -
  from assms obtain ke pKE pay where
    ke: "keyExpressionOf env canon ''pk('' '')'' = Inr ke"
    and pay: "(if cr then Inr None
            else bindE (pubkeyOf pKE) (\<lambda>pk.
                 bindE (p2pk env (FromPubkey pk) net) (\<lambda>p. Inr (Some p)))) = Inr pay"
    and r: "r = \<lparr>payment = pay, expandedExpression = Some ''pk(@0)'', miniscript = None,
          expansionMap = Some [(''@0'', pKE)], isSegwit = Some False,
          expandedMiniscript = None, redeemScript = None, witnessScript = None,
          isRanged = ranged, canonicalExpression = canon\<rparr>"
    unfolding expandPk_def bindE_eq_Inr by auto
  from keyPayment_Inr [OF pay] keyExpressionOf_Inr [OF ke] r show ?thesis by simp
qed

lemma expandPkh_Inr:
  assumes "expandPkh env net ranged cr canon = Inr r"
  shows "canonicalExpression r = canon \<and> isRanged r = ranged \<and> (payment r = None \<longleftrightarrow> cr) \<and>
     redeemScript r = None \<and> witnessScript r = None \<and> miniscript r = None \<and>
     canon \<noteq> [] \<and> last canon = CHR '')''"
proof -
  from assms obtain ke pKE pay where
    ke: "keyExpressionOf env canon ''pkh('' '')'' = Inr ke"
    and pay: "(if cr then Inr None
            else bindE (pubkeyOf pKE) (\<lambda>pk.
                 bindE (p2pkh env (FromPubkey pk) net) (\<lambda>p. Inr (Some p)))) = Inr pay"
    and r: "r = \<lparr>payment = pay, expandedExpression = Some ''pkh(@0)'', miniscript = None,
          expansionMap = Some [(''@0'', pKE)], isSegwit = Some False,
          expandedMiniscript = None, redeemScript = None, witnessScript = None,
          isRanged = ranged, canonicalExpression = canon\<rparr>"
    unfolding expandPkh_def bindE_eq_Inr by auto
  from keyPayment_Inr [OF pay] keyExpressionOf_Inr [OF ke] r show ?thesis by simp
qed

lemma expandWpkh_Inr:
  assumes "expandWpkh env net ranged cr canon = Inr r"
  shows "canonicalExpression r = canon \<and> isRanged r = ranged \<and> (payment r = None \<longleftrightarrow> cr) \<and>
     redeemScript r = None \<and> witnessScript r = None \<and> miniscript r = None \<and>
     canon \<noteq> [] \<and> last canon = CHR '')''"
proof -
  from assms obtain ke pKE pay where
    ke: "keyExpressionOf env canon ''wpkh('' '')'' = Inr ke"
    and pay: "(if cr then Inr None
            else bindE (pubkeyOf pKE) (\<lambda>pk.
                 bindE (p2wpkh env (FromPubkey pk) net) (\<lambda>p. Inr (Some p)))) = Inr pay"
    and r: "r = \<lparr>payment = pay, expandedExpression = Some ''wpkh(@0)'', miniscript = None,
          expansionMap = Some [(''@0'', pKE)], isSegwit = Some True,
          expandedMiniscript = None, redeemScript = None, witnessScript = None,
          isRanged = ranged, canonicalExpression = canon\<rparr>"
    unfolding expandWpkh_def bindE_eq_Inr by auto
  from keyPayment_Inr [OF pay] keyExpressionOf_Inr [OF ke] r show ?thesis by simp
qed

lemma expandShWpkh_Inr:
  assumes "expandShWpkh env net ranged cr canon = Inr r"
  shows "canonicalExpression r = canon \<and> isRanged r = ranged \<and> (payment r = None \<longleftrightarrow> cr) \<and>
     (cr \<longrightarrow> redeemScript r = None) \<and> witnessScript r = None \<and> miniscript r = None \<and>
     canon \<noteq> [] \<and> last canon = CHR '')''"
proof -
  from assms obtain ke pKE pr where
    ke: "keyExpressionOf env canon ''sh(wpkh('' ''))'' = Inr ke"
    and pr: "(if cr then Inr (None, None)
            else bindE (pubkeyOf pKE) (\<lambda>pk.
                 bindE (p2wpkh env (FromPubkey pk) net) (\<lambda>inner.
                 bindE (p2sh env (FromRedeem inner) net) (\<lambda>p.
                 case redeemOutput p of
                   None \<Rightarrow> Inl NoRedeemScript
                 | Some rs \<Rightarrow> Inr (Some p, Some rs))))) = Inr pr"
    and r: "r = \<lparr>payment = fst pr, expandedExpression = Some ''sh(wpkh(@0))'', miniscript = None,
          expansionMap = Some [(''@0'', pKE)], isSegwit = Some True,
          expandedMiniscript = None, redeemScript = snd pr, witnessScript = None,
          isRanged = ranged, canonicalExpression = canon\<rparr>"
    unfolding expandShWpkh_def bindE_eq_Inr by (auto simp: case_prod_beta)
  from pr have "(fst pr = None \<longleftrightarrow> cr) \<and> (cr \<longrightarrow> snd pr = None)"
    by (auto simp: bindE_eq_Inr split: if_splits option.splits)
  with keyExpressionOf_Inr [OF ke] r show ?thesis by simp
qed

lemma expandAddr_Inr:
  assumes "expandAddr env net ranged canon a = Inr r"
  shows "canonicalExpression r = canon \<and> isRanged r = ranged \<and> \<not> ranged \<and> payment r \<noteq> None \<and>
     redeemScript r = None \<and> witnessScript r = None \<and> miniscript r = None \<and> isSegwit r = None"
  using assms
  by (auto simp: expandAddr_def Let_def split: if_splits sum.splits option.splits)

lemma expandShWsh_Inr:
  assumes "expandShWsh env net ranged cr canon ms = Inr r"
  shows "canonicalExpression r = canon \<and> isRanged r = ranged \<and> (payment r = None \<longleftrightarrow> cr) \<and>
     (cr \<longrightarrow> redeemScript r = None \<and> witnessScript r = None) \<and> miniscript r = Some ms \<and> ms \<noteq> [] \<and>
     (\<exists>em emap. expandMiniscript env ms True net = Inr (em, emap) \<and>
        expandedMiniscript r = Some em \<and> expansionMap r = Some emap \<and>
        (\<not> cr \<longrightarrow> (\<exists>script. witnessScript r = Some script \<and>
           compileChecked env em emap MAX_STANDARD_P2WSH_SCRIPT_SIZE ScriptTooLarge = Inr script)))"
proof -
  from assms have ms: "ms \<noteq> []"
    by (auto simp: expandShWsh_def split: if_splits)
  with assms obtain em emap tr where
    e: "expandMiniscript env ms True net = Inr (em, emap)"
    and tr: "(if cr then Inr (None, None, None)
            else bindE (compileChecked env em emap MAX_STANDARD_P2WSH_SCRIPT_SIZE
                          ScriptTooLarge) (\<lambda>script.
                 bindE (p2wsh env (FromRedeem (Payment (Some script) None None)) net) (\<lambda>inner.
                 bindE (p2sh env (FromRedeem inner) net) (\<lambda>p.
                 case redeemOutput p of
                   None \<Rightarrow> Inl NoRedeemScript
                 | Some rs \<Rightarrow> Inr (Some p, Some rs, Some script))))) = Inr tr"
    and r: "r = \<lparr>payment = fst tr, expandedExpression = Some (''sh(wsh('' @ em @ ''))''),
          miniscript = Some ms, expansionMap = Some emap, isSegwit = Some True,
          expandedMiniscript = Some em, redeemScript = fst (snd tr), witnessScript = snd (snd tr),
          isRanged = ranged, canonicalExpression = canon\<rparr>"
    by (auto simp: expandShWsh_def bindE_eq_Inr split: prod.splits)
  from tr have "(fst tr = None \<longleftrightarrow> cr) \<and> (cr \<longrightarrow> fst (snd tr) = None \<and> snd (snd tr) = None) \<and>
    (\<not> cr \<longrightarrow> (\<exists>script. snd (snd tr) = Some script \<and>
           compileChecked env em emap MAX_STANDARD_P2WSH_SCRIPT_SIZE ScriptTooLarge = Inr script))"
    by (auto simp: bindE_eq_Inr split: if_splits option.splits)
  with ms e r show ?thesis by simp
qed

lemma expandWsh_Inr:
  assumes "expandWsh env net ranged cr canon ms = Inr r"
  shows "canonicalExpression r = canon \<and> isRanged r = ranged \<and> (payment r = None \<longleftrightarrow> cr) \<and>
     (cr \<longrightarrow> redeemScript r = None \<and> witnessScript r = None) \<and> miniscript r = Some ms \<and> ms \<noteq> [] \<and>
     (\<exists>em emap. expandMiniscript env ms True net = Inr (em, emap) \<and>
        expandedMiniscript r = Some em \<and> expansionMap r = Some emap \<and>
        (\<not> cr \<longrightarrow> (\<exists>script. witnessScript r = Some script \<and>
           compileChecked env em emap MAX_STANDARD_P2WSH_SCRIPT_SIZE ScriptTooLarge = Inr script)))"
proof -
  from assms have ms: "ms \<noteq> []"
    by (auto simp: expandWsh_def split: if_splits)
  with assms obtain em emap tr where
    e: "expandMiniscript env ms True net = Inr (em, emap)"
    and tr: "(if cr then Inr (None, None)
            else bindE (compileChecked env em emap MAX_STANDARD_P2WSH_SCRIPT_SIZE
                          ScriptTooLarge) (\<lambda>script.
                 bindE (p2wsh env (FromRedeem (Payment (Some script) None None)) net) (\<lambda>p.
                 Inr (Some p, Some script)))) = Inr tr"
    and r: "r = \<lparr>payment = fst tr, expandedExpression = Some (''wsh('' @ em @ '')''),
          miniscript = Some ms, expansionMap = Some emap, isSegwit = Some True,
          expandedMiniscript = Some em, redeemScript = None, witnessScript = snd tr,
          isRanged = ranged, canonicalExpression = canon\<rparr>"
    by (auto simp: expandWsh_def bindE_eq_Inr split: prod.splits)
  from tr have "(fst tr = None \<longleftrightarrow> cr) \<and> (cr \<longrightarrow> snd tr = None) \<and>
    (\<not> cr \<longrightarrow> (\<exists>script. snd tr = Some script \<and>
           compileChecked env em emap MAX_STANDARD_P2WSH_SCRIPT_SIZE ScriptTooLarge = Inr script))"
    by (auto simp: bindE_eq_Inr split: if_splits)
  with ms e r show ?thesis by simp
qed

lemma expandSh_Inr:
  assumes "expandSh env net allow ranged cr canon ms = Inr r"
  shows "canonicalExpression r = canon \<and> isRanged r = ranged \<and> (payment r = None \<longleftrightarrow> cr) \<and>
     (cr \<longrightarrow> redeemScript r = None) \<and> witnessScript r = None \<and> miniscript r = Some ms \<and> ms \<noteq> [] \<and>
     (allow \<or> startsWithShHead ms) \<and>
     (\<exists>em emap. expandMiniscript env ms False net = Inr (em, emap) \<and>
        expandedMiniscript r = Some em \<and> expansionMap r = Some emap \<and>
        (\<not> cr \<longrightarrow> (\<exists>script. redeemScript r = Some script \<and>
           compileChecked env em emap MAX_SCRIPT_ELEMENT_SIZE P2SHScriptTooLarge = Inr script)))"
proof -
  from assms have ms: "ms \<noteq> []" and al: "allow \<or> startsWithShHead ms"
    by (auto simp: expandSh_def split: if_splits)
  with assms obtain em emap tr where
    e: "expandMiniscript env ms False net = Inr (em, emap)"
    and tr: "(if cr then Inr (None, None)
            else bindE (compileChecked env em emap MAX_SCRIPT_ELEMENT_SIZE
                          P2SHScriptTooLarge) (\<lambda>script.
                 bindE (p2sh env (FromRedeem (Payment (Some script) None None)) net) (\<lambda>p.
                 Inr (Some p, Some script)))) = Inr tr"
    and r: "r = \<lparr>payment = fst tr, expandedExpression = Some (''sh('' @ em @ '')''),
          miniscript = Some ms, expansionMap = Some emap, isSegwit = Some False,
          expandedMiniscript = Some em, redeemScript = snd tr, witnessScript = None,
          isRanged = ranged, canonicalExpression = canon\<rparr>"
    by (auto simp: expandSh_def bindE_eq_Inr split: prod.splits)
  from tr have "(fst tr = None \<longleftrightarrow> cr) \<and> (cr \<longrightarrow> snd tr = None) \<and>
    (\<not> cr \<longrightarrow> (\<exists>script. snd tr = Some script \<and>
           compileChecked env em emap MAX_SCRIPT_ELEMENT_SIZE P2SHScriptTooLarge = Inr script))"
    by (auto simp: bindE_eq_Inr split: if_splits)
  with ms al e r show ?thesis by simp
qed

subsection \<open>dispatch and expand\<close>

lemma shellOf_Addr: "shellOf env canon = Addr a \<longleftrightarrow> reAddrAnchored env canon = Some a"
  by (auto simp: shellOf_def split: option.splits)

lemma dispatch_Inr:
  assumes "dispatch env net allow ranged canon = Inr r"
  shows "canonicalExpression r = canon \<and> isRanged r = ranged \<and>
    (case shellOf env canon of
       Addr a \<Rightarrow> \<not> ranged \<and> payment r \<noteq> None \<and> redeemScript r = None \<and>
         witnessScript r = None \<and> isSegwit r = None
     | _ \<Rightarrow> (payment r = None \<longleftrightarrow> CHR ''*'' \<in> set canon) \<and>
         (CHR ''*'' \<in> set canon \<longrightarrow> redeemScript r = None \<and> witnessScript r = None)) \<and>
    (case miniscript r of
       None \<Rightarrow> True
     | Some ms \<Rightarrow> ms \<noteq> [] \<and> expandedMiniscript r \<noteq> None \<and> expansionMap r \<noteq> None)"
proof (cases "shellOf env canon")
  case (Addr a)
  with assms have "expandAddr env net ranged canon a = Inr r"
    by (simp add: dispatch_def)
  from expandAddr_Inr [OF this] Addr show ?thesis by simp
next
  case Pk
  with assms have "expandPk env net ranged (CHR ''*'' \<in> set canon) canon = Inr r"
    by (simp add: dispatch_def)
  from expandPk_Inr [OF this] Pk show ?thesis by simp
next
  case Pkh
  with assms have "expandPkh env net ranged (CHR ''*'' \<in> set canon) canon = Inr r"
    by (simp add: dispatch_def)
  from expandPkh_Inr [OF this] Pkh show ?thesis by simp
next
  case ShWpkh
  with assms have "expandShWpkh env net ranged (CHR ''*'' \<in> set canon) canon = Inr r"
    by (simp add: dispatch_def)
  from expandShWpkh_Inr [OF this] ShWpkh show ?thesis by simp
next
  case Wpkh
  with assms have "expandWpkh env net ranged (CHR ''*'' \<in> set canon) canon = Inr r"
    by (simp add: dispatch_def)
  from expandWpkh_Inr [OF this] Wpkh show ?thesis by simp
next
  case (ShWsh ms)
  with assms have "expandShWsh env net ranged (CHR ''*'' \<in> set canon) canon ms = Inr r"
    by (simp add: dispatch_def)
  from expandShWsh_Inr [OF this] ShWsh show ?thesis by auto
next
  case (Sh ms)
  with assms have "expandSh env net allow ranged (CHR ''*'' \<in> set canon) canon ms = Inr r"
    by (simp add: dispatch_def)
  from expandSh_Inr [OF this] Sh show ?thesis by auto
next
  case (Wsh ms)
  with assms have "expandWsh env net ranged (CHR ''*'' \<in> set canon) canon ms = Inr r"
    by (simp add: dispatch_def)
  from expandWsh_Inr [OF this] Wsh show ?thesis by auto
next
  case Unparseable
  with assms show ?thesis by (simp add: dispatch_def)
qed


lemma expand_Inr:
  assumes "expand env dO eO ix cr net allow = Inr r"
  shows "descriptorOrExpression dO eO \<noteq> [] \<and>
    \<not> (case ix of None \<Rightarrow> False | Some n \<Rightarrow> invalidIndex n) \<and>
    (\<exists>canon. evaluate env (descriptorOrExpression dO eO) cr (map_option indexValue ix) = Inr canon \<and>
      dispatch env net allow (CHR ''*'' \<in> set (descriptorOrExpression dO eO)) canon = Inr r)"
  using assms
  by (auto simp: expand_def Let_def bindE_eq_Inr split: if_splits)

lemma not_Inr_fails: "(\<And>r. m \<noteq> Inr r) \<Longrightarrow> \<exists>e. m = Inl e"
  by (cases m) auto

lemma expand_miniscript:
  assumes "expand env dO eO ix cr net allow = Inr r" and "miniscript r = Some ms"
  shows "ms \<noteq> [] \<and> expandedMiniscript r \<noteq> None \<and> expansionMap r \<noteq> None"
proof -
  from expand_Inr [OF assms(1)] obtain canon where
    "dispatch env net allow (CHR ''*'' \<in> set (descriptorOrExpression dO eO)) canon = Inr r"
    by blast
  from dispatch_Inr [OF this] assms(2) show ?thesis by simp
qed

subsection \<open>The constructor\<close>

lemma Output_new_Inr:
  assumes "Output_new env v ix cr allow net pre sk = Inr out"
  shows "\<exists>d r. v = Str d \<and> expand env (Some d) None ix cr net allow = Inr r \<and>
    payment r = Some (o_payment out) \<and> o_preimages out = pre \<and>
    o_miniscript out = miniscript r \<and> o_expandedMiniscript out = expandedMiniscript r \<and>
    o_expansionMap out = expansionMap r \<and> o_witnessScript out = witnessScript r \<and>
    o_redeemScript out = redeemScript r \<and> o_isSegwit out = isSegwit r \<and> o_network out = net \<and>
    (case sk of Some ks \<Rightarrow> o_signersPubKeys out = ks | None \<Rightarrow> True)"
proof (cases v)
  case (Str d)
  with assms have "bindE (expand env (Some d) None ix cr net allow)
            (\<lambda>expandedResult.
          if isRanged expandedResult \<and> ix = None then Inl IndexNotProvided
          else case payment expandedResult of
            None \<Rightarrow> Inl NoPayment
          | Some p \<Rightarrow>
              bindE (case sk of
                       Some ks \<Rightarrow> Inr ks
                     | None \<Rightarrow>
                         (case expansionMap expandedResult of
                            Some emap \<Rightarrow> pubkeysOf emap
                          | None \<Rightarrow>
                              if reAddrAnchored env (canonicalExpression expandedResult) = None
                              then Inl ExpansionMapNotAvailable
                              else bindE (scriptPubKeyOf p) (\<lambda>spk. Inr [spk])))
                (\<lambda>signers.
              Inr \<lparr>o_payment = p, o_preimages = pre, o_signersPubKeys = signers,
                   o_miniscript = miniscript expandedResult,
                   o_witnessScript = witnessScript expandedResult,
                   o_redeemScript = redeemScript expandedResult,
                   o_isSegwit = isSegwit expandedResult,
                   o_expandedExpression = expandedExpression expandedResult,
                   o_expandedMiniscript = expandedMiniscript expandedResult,
                   o_expansionMap = expansionMap expandedResult,
                   o_network = net\<rparr>)) = Inr out"
    by (simp add: Output_new_def)
  then obtain r where
    r: "expand env (Some d) None ix cr net allow = Inr r"
    and rest: "(if isRanged r \<and> ix = None then Inl IndexNotProvided
          else case payment r of
            None \<Rightarrow> Inl NoPayment
          | Some p \<Rightarrow>
              bindE (case sk of
                       Some ks \<Rightarrow> Inr ks
                     | None \<Rightarrow>
                         (case expansionMap r of
                            Some emap \<Rightarrow> pubkeysOf emap
                          | None \<Rightarrow>
                              if reAddrAnchored env (canonicalExpression r) = None
                              then Inl ExpansionMapNotAvailable
                              else bindE (scriptPubKeyOf p) (\<lambda>spk. Inr [spk])))
                (\<lambda>signers.
              Inr \<lparr>o_payment = p, o_preimages = pre, o_signersPubKeys = signers,
                   o_miniscript = miniscript r,
                   o_witnessScript = witnessScript r,
                   o_redeemScript = redeemScript r,
                   o_isSegwit = isSegwit r,
                   o_expandedExpression = expandedExpression r,
                   o_expandedMiniscript = expandedMiniscript r,
                   o_expansionMap = expansionMap r,
                   o_network = net\<rparr>)) = Inr out"
    by (cases "expand env (Some d) None ix cr net allow") simp_all
  from rest obtain p where p: "payment r = Some p"
    by (cases "payment r") (simp_all split: if_splits)
  from rest have nr: "\<not> (isRanged r \<and> ix = None)"
    by (cases "isRanged r \<and> ix = None") simp_all
  with rest p obtain signers where
    s: "(case sk of
               Some ks \<Rightarrow> Inr ks
             | None \<Rightarrow>
                 (case expansionMap r of
                    Some emap \<Rightarrow> pubkeysOf emap
                  | None \<Rightarrow>
                      if reAddrAnchored env (canonicalExpression r) = None
                      then Inl ExpansionMapNotAvailable
                      else bindE (scriptPubKeyOf p) (\<lambda>spk. Inr [spk]))) = Inr signers"
    and out: "out = \<lparr>o_payment = p, o_preimages = pre, o_signersPubKeys = signers,
                   o_miniscript = miniscript r,
                   o_witnessScript = witnessScript r,
                   o_redeemScript = redeemScript r,
                   o_isSegwit = isSegwit r,
                   o_expandedExpression = expandedExpression r,
                   o_expandedMiniscript = expandedMiniscript r,
                   o_expansionMap = expansionMap r,
                   o_network = net\<rparr>"
    by (auto simp: bindE_eq_Inr)
  from s have "case sk of Some ks \<Rightarrow> signers = ks | None \<Rightarrow> True"
    by (cases sk) auto
  with Str r p out show ?thesis by (cases sk) auto
next
  case Undefined
  with assms show ?thesis by (simp add: Output_new_def)
next
  case (Num n)
  with assms show ?thesis by (simp add: Output_new_def)
next
  case (Buf b)
  with assms show ?thesis by (simp add: Output_new_def)
qed

subsection \<open>The PSBT input assertion\<close>

lemma assertPsbtInput_Inr:
  assumes "assertPsbtInput env out p i = Inr u"
  shows "i < length (inputs p) \<and> i < length (txInputs p) \<and>
    (\<exists>lt sq spk. getLockTime env out = Inr lt \<and> getSequence env out = Inr sq \<and>
      observedScriptPubKey env (inputs p ! i) (txInputs p ! i) = Inr spk \<and>
      getScriptPubKey out = Inr spk \<and>
      sequence (txInputs p ! i) =
        Some (expectedSequence sq (case lt of None \<Rightarrow> 0 | Some n \<Rightarrow> n)) \<and>
      locktime p = (case lt of None \<Rightarrow> 0 | Some n \<Rightarrow> n) \<and>
      in_witnessScript (inputs p ! i) = getWitnessScript out \<and>
      in_redeemScript (inputs p ! i) = getRedeemScript out)"
  using assms
  by (auto simp: assertPsbtInput_def Let_def bindE_eq_Inr eqBuffers_iff split: if_splits)

lemma finalizePsbtInput_Inr:
  assumes "finalizePsbtInput env out i p validate = Inr p'"
  shows "assertPsbtInput env out p i = Inr ()"
  using assms
  by (auto simp: finalizePsbtInput_def bindE_eq_Inr split: if_splits option.splits)

subsection \<open>The flag isRanged\<close>

lemma bindE_map: "map_sum id g (bindE m f) = bindE m (\<lambda>x. map_sum id g (f x))"
  by (cases m) simp_all

lemma expandPk_ranged:
  "expandPk env net ranged' cr canon =
     map_sum id (\<lambda>r. r\<lparr>isRanged := ranged'\<rparr>) (expandPk env net ranged cr canon)"
  by (simp add: expandPk_def bindE_map)

lemma expandPkh_ranged:
  "expandPkh env net ranged' cr canon =
     map_sum id (\<lambda>r. r\<lparr>isRanged := ranged'\<rparr>) (expandPkh env net ranged cr canon)"
  by (simp add: expandPkh_def bindE_map)

lemma expandWpkh_ranged:
  "expandWpkh env net ranged' cr canon =
     map_sum id (\<lambda>r. r\<lparr>isRanged := ranged'\<rparr>) (expandWpkh env net ranged cr canon)"
  by (simp add: expandWpkh_def bindE_map)

lemma expandShWpkh_ranged:
  "expandShWpkh env net ranged' cr canon =
     map_sum id (\<lambda>r. r\<lparr>isRanged := ranged'\<rparr>) (expandShWpkh env net ranged cr canon)"
  by (simp add: expandShWpkh_def bindE_map split_def)

lemma expandShWsh_ranged:
  "expandShWsh env net ranged' cr canon ms =
     map_sum id (\<lambda>r. r\<lparr>isRanged := ranged'\<rparr>) (expandShWsh env net ranged cr canon ms)"
  by (simp add: expandShWsh_def bindE_map split_def)

lemma expandSh_ranged:
  "expandSh env net allow ranged' cr canon ms =
     map_sum id (\<lambda>r. r\<lparr>isRanged := ranged'\<rparr>) (expandSh env net allow ranged cr canon ms)"
  by (simp add: expandSh_def bindE_map split_def)

lemma expandWsh_ranged:
  "expandWsh env net ranged' cr canon ms =
     map_sum id (\<lambda>r. r\<lparr>isRanged := ranged'\<rparr>) (expandWsh env net ranged cr canon ms)"
  by (simp add: expandWsh_def bindE_map split_def)

lemma dispatch_ranged:
  assumes "\<And>a. shellOf env canon \<noteq> Addr a"
  shows "dispatch env net allow ranged' canon =
     map_sum id (\<lambda>r. r\<lparr>isRanged := ranged'\<rparr>) (dispatch env net allow ranged canon)"
proof (cases "shellOf env canon")
  case (Addr a)
  with assms [of a] show ?thesis by blast
next
  case Pk
  then show ?thesis by (simp add: dispatch_def expandPk_ranged [of env net ranged' _ canon ranged])
next
  case Pkh
  then show ?thesis by (simp add: dispatch_def expandPkh_ranged [of env net ranged' _ canon ranged])
next
  case ShWpkh
  then show ?thesis by (simp add: dispatch_def expandShWpkh_ranged [of env net ranged' _ canon ranged])
next
  case Wpkh
  then show ?thesis by (simp add: dispatch_def expandWpkh_ranged [of env net ranged' _ canon ranged])
next
  case (ShWsh ms)
  then show ?thesis by (simp add: dispatch_def expandShWsh_ranged [of env net ranged' _ canon ms ranged])
next
  case (Sh ms)
  then show ?thesis by (simp add: dispatch_def expandSh_ranged [of env net allow ranged' _ canon ms ranged])
next
  case (Wsh ms)
  then show ?thesis by (simp add: dispatch_def expandWsh_ranged [of env net ranged' _ canon ms ranged])
next
  case Unparseable
  then show ?thesis by (simp add: dispatch_def)
qed


subsection \<open>expand, step by step\<close>

lemma expand_canonical:
  assumes "expand env dO eO ix cr net allow = Inr r"
  shows "evaluate env (descriptorOrExpression dO eO) cr (map_option indexValue ix)
           = Inr (canonicalExpression r) \<and>
         dispatch env net allow (CHR ''*'' \<in> set (descriptorOrExpression dO eO))
           (canonicalExpression r) = Inr r"
proof -
  from expand_Inr [OF assms] obtain canon where
    e: "evaluate env (descriptorOrExpression dO eO) cr (map_option indexValue ix) = Inr canon"
    and d: "dispatch env net allow (CHR ''*'' \<in> set (descriptorOrExpression dO eO)) canon = Inr r"
    by blast
  from dispatch_Inr [OF d] have "canonicalExpression r = canon" by simp
  with e d show ?thesis by simp
qed

lemma expand_fails_early:
  assumes "\<And>canon. evaluate env (descriptorOrExpression dO eO) cr (map_option indexValue ix)
      \<noteq> Inr canon"
  shows "\<exists>e. expand env dO eO ix cr net allow = Inl e"
proof (rule not_Inr_fails)
  fix r
  show "expand env dO eO ix cr net allow \<noteq> Inr r"
  proof
    assume "expand env dO eO ix cr net allow = Inr r"
    from expand_canonical [OF this] assms show False by blast
  qed
qed

lemma matchChecksum_split:
  assumes "matchChecksum d = Some m"
  shows "d = bodyOf d @ m \<and> length m = 9 \<and> take 1 m = ''#''"
proof -
  from assms have n: "9 \<le> length d" and h: "d ! (length d - 9) = CHR ''#''"
    and m: "m = drop (length d - 9) d"
    by (auto simp: matchChecksum_def Let_def split: if_splits)
  from n m have l: "length m = 9" by simp
  from n m h have "m ! 0 = CHR ''#''" by simp
  with l have t: "take 1 m = ''#''"
    by (cases m) simp_all
  from assms l m have "d = bodyOf d @ m"
    by (simp add: bodyOf_def)
  with l t show ?thesis by simp
qed

subsection \<open>addr and the script limits\<close>

lemma tryPayment_lastSuccess:
  "tryPayment (tryPayment (tryPayment (tryPayment (tryPayment None a) b) c) d) e
     = lastSuccess [a, b, c, d, e]"
  by (simp add: tryPayment_def split: sum.splits)

lemma expandAddr_eq:
  "expandAddr env net ranged canon a =
     (if ranged then Inl AddrCannotBeRanged
      else if a = [] then Inl CouldNotGetAddress
      else case toOutputScript env a net of
        Inl e \<Rightarrow> Inl InvalidAddress
      | Inr out \<Rightarrow>
          (case lastSuccess [p2pkh env (FromOutput out) net, p2sh env (FromOutput out) net,
                  p2wpkh env (FromOutput out) net, p2wsh env (FromOutput out) net,
                  p2tr env (FromOutput out) net] of
             None \<Rightarrow> Inl InvalidAddress
           | Some p \<Rightarrow>
               Inr \<lparr>payment = Some p, expandedExpression = None, miniscript = None,
                    expansionMap = None, isSegwit = None, expandedMiniscript = None,
                    redeemScript = None, witnessScript = None, isRanged = ranged,
                    canonicalExpression = canon\<rparr>))"
  unfolding expandAddr_def Let_def tryPayment_lastSuccess ..

lemma compileChecked_Inr:
  assumes "compileChecked env em emap maxSize tooLarge = Inr script"
  shows "miniscript2Script env em emap = Inr script \<and> length script \<le> maxSize \<and>
    (\<exists>toks. decompile env script = Some toks \<and>
       length (filter isNonPushOp toks) \<le> MAX_OPS_PER_SCRIPT)"
  using assms
  by (auto simp: compileChecked_def countNonPushOnlyOPs_def bindE_eq_Inr
      split: if_splits option.splits)

lemma isNonPushOp_eq: "isNonPushOp = (\<lambda>t. case t of Opcode op \<Rightarrow> 0x60 < op | Push b \<Rightarrow> False)"
proof
  fix t
  show "isNonPushOp t = (case t of Opcode op \<Rightarrow> 0x60 < op | Push b \<Rightarrow> False)"
    by (cases t) (simp_all add: OP_16_def)
qed

lemma expand_plain:
  assumes "c \<noteq> []" and "matchChecksum c = None"
  shows "expand env (Some c) None None False net allow =
    dispatch env net allow (CHR ''*'' \<in> set c) c"
  using assms
  by (simp add: expand_def truthy_def descriptorOrExpression_def evaluate_no_checksum)

subsection \<open>A checksum after the substitution\<close>

lemma matchChecksum_chars:
  assumes "matchChecksum d = Some m"
  shows "list_all (\<lambda>c. c \<in> set CHECKSUM_CHARSET) (drop 1 m)"
proof -
  from assms have n: "9 \<le> length d"
    and a: "list_all (\<lambda>c. c \<in> set CHECKSUM_CHARSET) (drop (length d - 8) d)"
    and m: "m = drop (length d - 9) d"
    by (auto simp: matchChecksum_def Let_def split: if_splits)
  from n have "1 + (length d - 9) = length d - 8" by arith
  with m have "drop 1 m = drop (length d - 8) d" by simp
  with a show ?thesis by simp
qed

lemma matchChecksum_append:
  assumes "length m = 9" and "take 1 m = ''#''"
    and "list_all (\<lambda>c. c \<in> set CHECKSUM_CHARSET) (drop 1 m)"
  shows "matchChecksum (b @ m) = Some m \<and> bodyOf (b @ m) = b"
proof -
  from assms(1,2) have h: "m ! 0 = CHR ''#''"
    by (cases m) simp_all
  have "matchChecksum (b @ m) = Some m"
    using assms(1,3) h by (simp add: matchChecksum_def nth_append)
  then show ?thesis using assms(1) by (simp add: bodyOf_def)
qed

lemma replaceAll_append: "replaceAll c s (a @ b) = replaceAll c s a @ replaceAll c s b"
  by (simp add: replaceAll_def)

lemma replaceAll_absent: "c \<notin> set b \<Longrightarrow> replaceAll c s b = b"
  by (induction b) (auto simp: replaceAll_def)

lemma checksum_no_star:
  assumes "matchChecksum d = Some m"
  shows "CHR ''*'' \<notin> set m"
proof -
  from matchChecksum_split [OF assms] obtain xs where m: "m = CHR ''#'' # xs"
    by (cases m) simp_all
  with matchChecksum_chars [OF assms] have "list_all (\<lambda>c. c \<in> set CHECKSUM_CHARSET) xs"
    by simp
  with star_not_checksum have "CHR ''*'' \<notin> set xs"
    by (auto simp: list_all_iff)
  with m show ?thesis by simp
qed

proposition stale_checksum:
  assumes "matchChecksum d = Some m"
    and "DescriptorChecksum env (replaceAll (CHR ''*'') s (bodyOf d)) \<noteq> Inr (drop 1 m)"
  shows "replaceAll (CHR ''*'') s d = replaceAll (CHR ''*'') s (bodyOf d) @ m \<and>
    (\<exists>e. expand env (Some (replaceAll (CHR ''*'') s d)) None ix cr net allow = Inl e)"
proof -
  let ?b = "replaceAll (CHR ''*'') s (bodyOf d)"
  from matchChecksum_split [OF assms(1)]
  have d: "d = bodyOf d @ m" and l: "length m = 9" and t: "take 1 m = ''#''"
    by simp_all
  have "replaceAll (CHR ''*'') s (bodyOf d @ m) = ?b @ replaceAll (CHR ''*'') s m"
    by (rule replaceAll_append)
  with d have "replaceAll (CHR ''*'') s d = ?b @ replaceAll (CHR ''*'') s m"
    by simp
  with checksum_no_star [OF assms(1)] have r: "replaceAll (CHR ''*'') s d = ?b @ m"
    by (simp add: replaceAll_absent)
  from matchChecksum_append [OF l t matchChecksum_chars [OF assms(1)], of ?b]
  have mc: "matchChecksum (?b @ m) = Some m" and bo: "bodyOf (?b @ m) = ?b"
    by simp_all
  have ne: "?b @ m \<noteq> []" using l by auto
  have "evaluate env (?b @ m) cr (map_option indexValue ix) \<noteq> Inr canon" for canon
    using evaluate_Inr [of env "?b @ m" cr "map_option indexValue ix" canon] mc bo assms(2)
    by auto
  then have "evaluate env (descriptorOrExpression (Some (?b @ m)) None) cr
      (map_option indexValue ix) \<noteq> Inr canon" for canon
    using ne by (simp add: descriptorOrExpression_def truthy_def)
  then have "\<exists>e. expand env (Some (?b @ m)) None ix cr net allow = Inl e"
    by (rule expand_fails_early)
  with r show ?thesis by simp
qed

subsection \<open>Running the model\<close>

lemmas model_defs = expand_def truthy_def descriptorOrExpression_def evaluate_def matchChecksum_def
  bodyOf_def substitute_def replaceAll_def Number_toString_def MAX_SAFE_INTEGER_def dispatch_def
  shellOf_def matchShell_def expandAddr_def expandPk_def expandPkh_def
  expandShWpkh_def expandWpkh_def expandShWsh_def expandSh_def expandWsh_def keyExpressionOf_def
  pubkeyOf_def redeemOutput_def compileChecked_def countNonPushOnlyOPs_def tryPayment_def
  startsWithShHead_def shHeads_def MAX_SCRIPT_ELEMENT_SIZE_def MAX_STANDARD_P2WSH_SCRIPT_SIZE_def
  MAX_OPS_PER_SCRIPT_def OP_16_def CHECKSUM_CHARSET_def env0_def toyPayment_def toyChecksum_def
  toyChecksumChar_def
  toyKey_def keyBetween_def bytesOf_def

lemmas output_defs = Output_new_def scriptPubKeyOf_def getTimeConstraints_def getSequence_def
  getLockTime_def getScriptPubKey_def getWitnessScript_def getRedeemScript_def
  getScriptSatisfaction_def observedScriptPubKey_def expectedSequence_def assertPsbtInput_def
  finalizePsbtInput_def output_wsh_def output_pkh_def psbt_wsh_def psbt_pkh_def

lemma new_wsh: "Output_new env0 (Str ''wsh(pk(K))'') None False False bitcoin [] None = Inr output_wsh"
  by (simp add: model_defs output_defs)

lemma new_pkh: "Output_new env0 (Str ''pkh(K)'') None False False bitcoin [] None = Inr output_pkh"
  by (simp add: model_defs output_defs)

lemma fin_wsh: "finalizePsbtInput env0 output_wsh 0 psbt_wsh True = Inr psbt_wsh"
  by (simp add: model_defs output_defs)

lemma fin_pkh: "finalizePsbtInput env0 output_pkh 0 psbt_pkh True = Inr psbt_pkh"
  by (simp add: model_defs output_defs)

section \<open>The claims about Output\<close>

text \<open>
  C10. The \<^verbatim>\<open>Output\<close> constructor throws for every \<^verbatim>\<open>descriptor\<close> argument that is not a
  string (\<^verbatim>\<open>undefined\<close>, a number, a Buffer). The error is the one of the type test whatever
  the collaborators, the index and the other arguments are: neither the checksum, nor the
  index, nor \<^verbatim>\<open>expand\<close> has a say in it.
\<close>

theorem Output_rejects_non_string:
  assumes "\<not> isString v"
  shows "Output_new env v ix cr allow net pre sk = Inl InvalidDescriptorType"
  using assms by (cases v) (simp_all add: Output_new_def)

theorem Output_rejects_non_string_witness:
  "\<not> isString Undefined \<and> \<not> isString (Num (Integer 0)) \<and> \<not> isString (Buf [0x70, 0x6B]) \<and>
   Output_new env0 Undefined (Some NonInteger) True False bitcoin [] None = Inl InvalidDescriptorType \<and>
   Output_new env0 (Num (Integer 0)) None True False bitcoin [] None = Inl InvalidDescriptorType \<and>
   Output_new env0 (Buf [0x70, 0x6B]) None False False bitcoin [] None = Inl InvalidDescriptorType"
  using Output_rejects_non_string [of Undefined env0 "Some NonInteger" True False bitcoin "[]" None]
    Output_rejects_non_string [of "Num (Integer 0)" env0 None True False bitcoin "[]" None]
    Output_rejects_non_string [of "Buf [0x70, 0x6B]" env0 None False False bitcoin "[]" None]
  by simp

text \<open>
  C7. For an \<^verbatim>\<open>Output\<close> that the constructor built from a miniscript descriptor,
  \<^verbatim>\<open>getSequence()\<close> and \<^verbatim>\<open>getLockTime()\<close> are the \<^verbatim>\<open>nSequence\<close> and the \<^verbatim>\<open>nLockTime\<close> of
  the satisfier's answer to one fake signature of 64 zero bytes for each entry of
  \<^verbatim>\<open>signersPubKeys\<close>, the stored preimages and no time constraints (an error of the
  satisfier is the error of the getter). For an \<^verbatim>\<open>Output\<close> without miniscript both are
  \<^verbatim>\<open>undefined\<close>.
\<close>

theorem time_constraints_from_fake_signatures:
  assumes "Output_new env v ix cr allow net pre sk = Inr out"
  shows "o_preimages out = pre \<and>
    (case o_miniscript out of
       None \<Rightarrow> getSequence env out = Inr None \<and> getLockTime env out = Inr None
     | Some ms \<Rightarrow>
         (\<exists>em emap. o_expandedMiniscript out = Some em \<and> o_expansionMap out = Some emap \<and>
            getSequence env out =
              bindE (satisfyMiniscript env em emap
                       (map (\<lambda>pk. \<lparr>sig_pubkey = pk, signature = replicate 64 0\<rparr>)
                          (o_signersPubKeys out))
                       (o_preimages out) None)
                (\<lambda>s. Inr (sat_nSequence s)) \<and>
            getLockTime env out =
              bindE (satisfyMiniscript env em emap
                       (map (\<lambda>pk. \<lparr>sig_pubkey = pk, signature = replicate 64 0\<rparr>)
                          (o_signersPubKeys out))
                       (o_preimages out) None)
                (\<lambda>s. Inr (sat_nLockTime s))))"
proof -
  from Output_new_Inr [OF assms] obtain d r where
    r: "expand env (Some d) None ix cr net allow = Inr r"
    and pre: "o_preimages out = pre"
    and ms: "o_miniscript out = miniscript r"
    and em: "o_expandedMiniscript out = expandedMiniscript r"
    and emap: "o_expansionMap out = expansionMap r"
    by blast
  show ?thesis
  proof (cases "miniscript r")
    case None
    with ms pre show ?thesis
      by (simp add: getSequence_def getLockTime_def getTimeConstraints_def truthy_def)
  next
    case (Some m)
    from expand_miniscript [OF r Some] obtain e mp where
      "m \<noteq> []" "expandedMiniscript r = Some e" "expansionMap r = Some mp"
      by auto
    with Some ms em emap pre show ?thesis
      by (cases "satisfyMiniscript env e mp
                   (map (\<lambda>pk. \<lparr>sig_pubkey = pk, signature = replicate 64 0\<rparr>)
                      (o_signersPubKeys out)) pre None")
        (simp_all add: getSequence_def getLockTime_def getTimeConstraints_def truthy_def)
  qed
qed

theorem time_constraints_from_fake_signatures_witness:
  "Output_new env0 (Str ''wsh(pk(K))'') None False False bitcoin [] None = Inr output_wsh \<and>
   o_miniscript output_wsh = Some ''pk(K)'' \<and>
   getSequence env0 output_wsh = Inr (Some 144) \<and> getLockTime env0 output_wsh = Inr None \<and>
   Output_new env0 (Str ''pkh(K)'') None False False bitcoin [] None = Inr output_pkh \<and>
   o_miniscript output_pkh = None \<and>
   getSequence env0 output_pkh = Inr None \<and> getLockTime env0 output_pkh = Inr None"
  using time_constraints_from_fake_signatures [OF new_wsh]
    time_constraints_from_fake_signatures [OF new_pkh] new_wsh new_pkh
  by (simp add: output_wsh_def output_pkh_def env0_def)

text \<open>
  C8. \<^verbatim>\<open>finalizePsbtInput\<close> returns only if the input assertion passed: the index names
  an input and a transaction input; the expected sequence is \<^verbatim>\<open>getSequence()\<close> when it is
  defined, else \<^verbatim>\<open>0xfffffffe\<close> when \<^verbatim>\<open>getLockTime()\<close> is a number other than 0, else
  \<^verbatim>\<open>0xffffffff\<close>; and the observed scriptPubKey, the transaction input's sequence, the
  PSBT's locktime (against \<^verbatim>\<open>getLockTime()\<close>, or 0 when that is undefined), the input's
  \<^verbatim>\<open>witnessScript\<close> and its \<^verbatim>\<open>redeemScript\<close> equal those of this \<^verbatim>\<open>Output\<close>.
\<close>

theorem finalizePsbtInput_asserts:
  assumes "finalizePsbtInput env out i p validate = Inr p'"
  shows "i < length (inputs p) \<and> i < length (txInputs p) \<and>
    (\<exists>lt sq spk. getLockTime env out = Inr lt \<and> getSequence env out = Inr sq \<and>
      observedScriptPubKey env (inputs p ! i) (txInputs p ! i) = Inr spk \<and>
      getScriptPubKey out = Inr spk \<and>
      sequence (txInputs p ! i) =
        Some (case sq of
                Some n \<Rightarrow> n
              | None \<Rightarrow> (case lt of
                           Some l \<Rightarrow> if l = 0 then 0xffffffff else 0xfffffffe
                         | None \<Rightarrow> 0xffffffff)) \<and>
      locktime p = (case lt of None \<Rightarrow> 0 | Some l \<Rightarrow> l) \<and>
      in_witnessScript (inputs p ! i) = getWitnessScript out \<and>
      in_redeemScript (inputs p ! i) = getRedeemScript out)"
proof -
  from assertPsbtInput_Inr [OF finalizePsbtInput_Inr [OF assms]] obtain lt sq spk where
    b: "i < length (inputs p)" "i < length (txInputs p)"
    and f: "getLockTime env out = Inr lt" "getSequence env out = Inr sq"
      "observedScriptPubKey env (inputs p ! i) (txInputs p ! i) = Inr spk"
      "getScriptPubKey out = Inr spk"
      "sequence (txInputs p ! i) =
        Some (expectedSequence sq (case lt of None \<Rightarrow> 0 | Some n \<Rightarrow> n))"
      "locktime p = (case lt of None \<Rightarrow> 0 | Some n \<Rightarrow> n)"
      "in_witnessScript (inputs p ! i) = getWitnessScript out"
      "in_redeemScript (inputs p ! i) = getRedeemScript out"
    by blast
  have "expectedSequence sq (case lt of None \<Rightarrow> 0 | Some n \<Rightarrow> n) =
      (case sq of
         Some n \<Rightarrow> n
       | None \<Rightarrow> (case lt of
                    Some l \<Rightarrow> if l = 0 then 0xffffffff else 0xfffffffe
                  | None \<Rightarrow> 0xffffffff))"
    by (simp add: expectedSequence_def split: option.splits)
  with b f show ?thesis by auto
qed

theorem finalizePsbtInput_asserts_witness:
  "finalizePsbtInput env0 output_wsh 0 psbt_wsh True = Inr psbt_wsh \<and>
   getSequence env0 output_wsh = Inr (Some 144) \<and>
   sequence (txInputs psbt_wsh ! 0) = Some 144 \<and>
   in_witnessScript (inputs psbt_wsh ! 0) = getWitnessScript output_wsh \<and>
   finalizePsbtInput env0 output_pkh 0 psbt_pkh True = Inr psbt_pkh \<and>
   getSequence env0 output_pkh = Inr None \<and> getLockTime env0 output_pkh = Inr None \<and>
   sequence (txInputs psbt_pkh ! 0) = Some 0xffffffff \<and> locktime psbt_pkh = 0"
  using finalizePsbtInput_asserts [OF fin_wsh] finalizePsbtInput_asserts [OF fin_pkh]
    fin_wsh fin_pkh
  by (simp add: output_defs env0_def truthy_def)

text \<open>
  C9. \<^verbatim>\<open>eqBuffers\<close> holds of two absent values and fails between an absent value and a
  buffer. So the assertion passes only if the PSBT input has a \<^verbatim>\<open>witnessScript\<close> exactly
  when the \<^verbatim>\<open>Output\<close> has one, and likewise for the \<^verbatim>\<open>redeemScript\<close>; a presence mismatch
  in either direction makes \<^verbatim>\<open>finalizePsbtInput\<close> fail.
\<close>

theorem eqBuffers_presence:
  "eqBuffers None None \<and> \<not> eqBuffers None (Some b) \<and> \<not> eqBuffers (Some b) None \<and>
   (assertPsbtInput env out p i = Inr () \<longrightarrow>
      (getWitnessScript out = None \<longleftrightarrow> in_witnessScript (inputs p ! i) = None) \<and>
      (getRedeemScript out = None \<longleftrightarrow> in_redeemScript (inputs p ! i) = None)) \<and>
   ((getWitnessScript out = None) \<noteq> (in_witnessScript (inputs p ! i) = None) \<or>
    (getRedeemScript out = None) \<noteq> (in_redeemScript (inputs p ! i) = None) \<longrightarrow>
      (\<exists>e. finalizePsbtInput env out i p validate = Inl e))"
proof -
  have a: "assertPsbtInput env out p i = Inr () \<Longrightarrow>
      (getWitnessScript out = None \<longleftrightarrow> in_witnessScript (inputs p ! i) = None) \<and>
      (getRedeemScript out = None \<longleftrightarrow> in_redeemScript (inputs p ! i) = None)"
    using assertPsbtInput_Inr [of env out p i "()"] by auto
  have "\<exists>e. finalizePsbtInput env out i p validate = Inl e"
    if "(getWitnessScript out = None) \<noteq> (in_witnessScript (inputs p ! i) = None) \<or>
        (getRedeemScript out = None) \<noteq> (in_redeemScript (inputs p ! i) = None)"
  proof (rule not_Inr_fails)
    fix p'
    show "finalizePsbtInput env out i p validate \<noteq> Inr p'"
    proof
      assume "finalizePsbtInput env out i p validate = Inr p'"
      from a [OF finalizePsbtInput_Inr [OF this]] that show False by auto
    qed
  qed
  with a show ?thesis by simp
qed

theorem eqBuffers_presence_witness:
  "assertPsbtInput env0 output_pkh psbt_pkh 0 = Inr () \<and>
   getWitnessScript output_pkh = None \<and> in_witnessScript (inputs psbt_pkh ! 0) = None \<and>
   getRedeemScript output_pkh = None \<and> in_redeemScript (inputs psbt_pkh ! 0) = None \<and>
   getWitnessScript output_pkh = None \<and> in_witnessScript (inputs psbt_wsh ! 0) \<noteq> None \<and>
   finalizePsbtInput env0 output_pkh 0 psbt_wsh True = Inl CannotFinalize \<and>
   getWitnessScript output_wsh \<noteq> None \<and> in_witnessScript (inputs psbt_pkh ! 0) = None \<and>
   (\<exists>e. finalizePsbtInput env0 output_wsh 0 psbt_pkh False = Inl e)"
  using eqBuffers_presence [of "[]" env0 output_pkh psbt_pkh 0 True]
    eqBuffers_presence [of "[]" env0 output_wsh psbt_pkh 0 False]
  by (simp add: output_defs env0_def truthy_def bindE_def)

section \<open>The claims about expand\<close>


lemma run_pkh_required_missing:
  "expand env0 (Some ''pkh(K)'') None None True bitcoin False = Inl HasNotChecksum"
  by (simp add: model_defs)

lemma run_pkh_bad_checksum:
  "expand env0 (Some ''pkh(K)#qqqqqqqq'') None None False bitcoin False = Inl InvalidChecksum"
  by (simp add: model_defs)




text \<open>
  C2. After a successful \<^verbatim>\<open>expand\<close> the canonical expression is what \<^verbatim>\<open>evaluate\<close>
  returned; \<^verbatim>\<open>payment\<close> is present if and only if it contains no \<^verbatim>\<open>*\<close>, and when it
  contains one, \<^verbatim>\<open>redeemScript\<close> and \<^verbatim>\<open>witnessScript\<close> are absent too.
\<close>

theorem payment_iff_not_ranged:
  assumes "expand env dO eO ix cr net allow = Inr r"
  shows "evaluate env (descriptorOrExpression dO eO) cr (map_option indexValue ix)
           = Inr (canonicalExpression r) \<and>
    (payment r \<noteq> None \<longleftrightarrow> CHR ''*'' \<notin> set (canonicalExpression r)) \<and>
    (CHR ''*'' \<in> set (canonicalExpression r) \<longrightarrow> redeemScript r = None \<and> witnessScript r = None)"
proof -
  from expand_canonical [OF assms]
  have e: "evaluate env (descriptorOrExpression dO eO) cr (map_option indexValue ix)
           = Inr (canonicalExpression r)"
    and d: "dispatch env net allow (CHR ''*'' \<in> set (descriptorOrExpression dO eO))
           (canonicalExpression r) = Inr r"
    by simp_all
  show ?thesis
  proof (cases "\<exists>a. shellOf env (canonicalExpression r) = Addr a")
    case True
    then obtain a where a: "shellOf env (canonicalExpression r) = Addr a" ..
    with dispatch_Inr [OF d]
    have n: "CHR ''*'' \<notin> set (descriptorOrExpression dO eO)" and p: "payment r \<noteq> None"
      and s: "redeemScript r = None \<and> witnessScript r = None"
      by simp_all
    from n evaluate_star [OF e] have "CHR ''*'' \<notin> set (canonicalExpression r)"
      by blast
    with e p s show ?thesis by simp
  next
    case False
    with dispatch_Inr [OF d]
    have "(payment r = None \<longleftrightarrow> CHR ''*'' \<in> set (canonicalExpression r)) \<and>
         (CHR ''*'' \<in> set (canonicalExpression r) \<longrightarrow>
            redeemScript r = None \<and> witnessScript r = None)"
      by (cases "shellOf env (canonicalExpression r)") simp_all
    with e show ?thesis by auto
  qed
qed

lemma run_shwsh_ranged:
  "expand env0 (Some ''sh(wsh(pk(K/*)))'') None None False bitcoin False =
     Inr \<lparr>payment = None, expandedExpression = Some ''sh(wsh(pk(@0)))'',
          miniscript = Some ''pk(K/*)'',
          expansionMap = Some [(''@0'', \<lparr>keyExpression = ''K/*'', pubkey = None\<rparr>)],
          isSegwit = Some True, expandedMiniscript = Some ''pk(@0)'', redeemScript = None,
          witnessScript = None, isRanged = True, canonicalExpression = ''sh(wsh(pk(K/*)))''\<rparr>"
  by (simp add: model_defs)

lemma run_shwsh_index:
  "expand env0 (Some ''sh(wsh(pk(K/*)))'') None (Some (Integer 7)) False bitcoin False =
     Inr \<lparr>payment = Some (Payment (Some [0x33, 0x77, 0x4B]) None
                      (Some (Payment (Some [0x77, 0x4B, 0x2F]) None
                         (Some (Payment (Some [0x4B, 0x2F, 0x37, 0xAC]) None None))))),
          expandedExpression = Some ''sh(wsh(pk(@0)))'',
          miniscript = Some ''pk(K/7)'',
          expansionMap = Some [(''@0'', \<lparr>keyExpression = ''K/7'', pubkey = Some [0x4B, 0x2F, 0x37]\<rparr>)],
          isSegwit = Some True, expandedMiniscript = Some ''pk(@0)'',
          redeemScript = Some [0x77, 0x4B, 0x2F],
          witnessScript = Some [0x4B, 0x2F, 0x37, 0xAC], isRanged = True,
          canonicalExpression = ''sh(wsh(pk(K/7)))''\<rparr>"
  by (simp add: model_defs decimal.simps)

theorem payment_iff_not_ranged_witness:
  "(\<exists>r. expand env0 (Some ''sh(wsh(pk(K/*)))'') None None False bitcoin False = Inr r \<and>
       canonicalExpression r = ''sh(wsh(pk(K/*)))'' \<and> payment r = None \<and>
       redeemScript r = None \<and> witnessScript r = None) \<and>
   (\<exists>r. expand env0 (Some ''sh(wsh(pk(K/*)))'') None (Some (Integer 7)) False bitcoin False = Inr r \<and>
       canonicalExpression r = ''sh(wsh(pk(K/7)))'' \<and> payment r \<noteq> None)"
  using payment_iff_not_ranged [OF run_shwsh_ranged] payment_iff_not_ranged [OF run_shwsh_index]
    run_shwsh_ranged run_shwsh_index
  by simp

text \<open>
  C3. Take a call to \<^verbatim>\<open>expand\<close> with an index, on the descriptor \<open>d\<close>. An index that is
  not an integer or is negative makes it fail. An index for a descriptor whose body (the
  descriptor without its checksum) has no \<^verbatim>\<open>*\<close> makes it fail. Otherwise, when it
  succeeds, the canonical expression is the body with every \<^verbatim>\<open>*\<close> replaced by the same
  text \<^verbatim>\<open>index.toString()\<close>, and contains no \<^verbatim>\<open>*\<close>. That text is never empty and is made
  of digits, \<^verbatim>\<open>.\<close>, \<^verbatim>\<open>e\<close> and \<^verbatim>\<open>+\<close>. It is the decimal representation of the index up to
  \<^verbatim>\<open>Number.MAX_SAFE_INTEGER\<close> and not for every index above, which is where the claim
  fails as stated: at the index \<open>10^21\<close> the text is \<^verbatim>\<open>1e+21\<close> (the counterexample below).
\<close>

theorem expand_index:
  assumes "d = descriptorOrExpression dO eO"
  shows "(n = NonInteger \<or> (\<exists>i. n = Integer i \<and> i < 0) \<longrightarrow>
       (\<exists>e. expand env dO eO (Some n) cr net allow = Inl e)) \<and>
    (CHR ''*'' \<notin> set (bodyOf d) \<longrightarrow> (\<exists>e. expand env dO eO (Some n) cr net allow = Inl e)) \<and>
    (\<forall>r. expand env dO eO (Some n) cr net allow = Inr r \<longrightarrow>
       (\<exists>i. n = Integer i \<and> 0 \<le> i \<and>
          canonicalExpression r =
            replaceAll (CHR ''*'') (Number_toString env (nat i)) (bodyOf d) \<and>
          Number_toString env (nat i) \<noteq> [] \<and>
          set (Number_toString env (nat i)) \<subseteq> set ''0123456789.e+'' \<and>
          CHR ''*'' \<notin> set (canonicalExpression r) \<and>
          (i \<le> MAX_SAFE_INTEGER \<longrightarrow>
             Number_toString env (nat i) = decimal (nat i) \<and>
             canonicalExpression r = replaceAll (CHR ''*'') (decimal (nat i)) (bodyOf d))))"
proof (intro conjI allI impI)
  assume bad: "n = NonInteger \<or> (\<exists>i. n = Integer i \<and> i < 0)"
  show "\<exists>e. expand env dO eO (Some n) cr net allow = Inl e"
  proof (rule not_Inr_fails)
    fix r
    show "expand env dO eO (Some n) cr net allow \<noteq> Inr r"
    proof
      assume "expand env dO eO (Some n) cr net allow = Inr r"
      from expand_Inr [OF this] have "\<not> invalidIndex n" by simp
      with bad show False by auto
    qed
  qed
next
  assume ns: "CHR ''*'' \<notin> set (bodyOf d)"
  have "evaluate env d cr (map_option indexValue (Some n)) \<noteq> Inr canon" for canon
  proof
    assume "evaluate env d cr (map_option indexValue (Some n)) = Inr canon"
    from evaluate_Inr [OF this]
    have "substitute env (bodyOf d) (Some (indexValue n)) = Inr canon" by simp
    from substitute_Inr [OF this] ns show False by simp
  qed
  then show "\<exists>e. expand env dO eO (Some n) cr net allow = Inl e"
    unfolding assms by (rule expand_fails_early)
next
  fix r
  assume r: "expand env dO eO (Some n) cr net allow = Inr r"
  from expand_Inr [OF r] have v: "\<not> invalidIndex n" by simp
  then obtain i where i: "n = Integer i" "0 \<le> i"
    by (cases n) auto
  from expand_canonical [OF r]
  have "evaluate env d cr (Some (nat i)) = Inr (canonicalExpression r)"
    by (simp add: assms i)
  from evaluate_Inr [OF this]
  have "substitute env (bodyOf d) (Some (nat i)) = Inr (canonicalExpression r)" by simp
  from substitute_Inr [OF this]
  have c: "canonicalExpression r =
      replaceAll (CHR ''*'') (Number_toString env (nat i)) (bodyOf d)"
    by simp
  then have s: "CHR ''*'' \<notin> set (canonicalExpression r)"
    by (simp add: replaceAll_no_star Number_toString_no_star)
  have "i \<le> MAX_SAFE_INTEGER \<longrightarrow>
      Number_toString env (nat i) = decimal (nat i) \<and>
      canonicalExpression r = replaceAll (CHR ''*'') (decimal (nat i)) (bodyOf d)"
    using i c by (simp add: Number_toString_safe)
  with i c s Number_toString_nonempty [of env "nat i"] Number_toString_chars [of env "nat i"]
  show "\<exists>i. n = Integer i \<and> 0 \<le> i \<and>
          canonicalExpression r =
            replaceAll (CHR ''*'') (Number_toString env (nat i)) (bodyOf d) \<and>
          Number_toString env (nat i) \<noteq> [] \<and>
          set (Number_toString env (nat i)) \<subseteq> set ''0123456789.e+'' \<and>
          CHR ''*'' \<notin> set (canonicalExpression r) \<and>
          (i \<le> MAX_SAFE_INTEGER \<longrightarrow>
             Number_toString env (nat i) = decimal (nat i) \<and>
             canonicalExpression r = replaceAll (CHR ''*'') (decimal (nat i)) (bodyOf d))"
    by blast
qed

lemma run_two_wildcards:
  "expand env0 (Some ''wsh(pk(K/*/*))'') None (Some (Integer 12)) False bitcoin False =
     Inr \<lparr>payment = Some (Payment (Some [0x77, 0x4B, 0x2F]) None
                      (Some (Payment (Some [0x4B, 0x2F, 0x31, 0x32, 0x2F, 0x31, 0x32, 0xAC])
                               None None))),
          expandedExpression = Some ''wsh(pk(@0))'',
          miniscript = Some ''pk(K/12/12)'',
          expansionMap = Some [(''@0'', \<lparr>keyExpression = ''K/12/12'',
                                        pubkey = Some [0x4B, 0x2F, 0x31, 0x32, 0x2F, 0x31, 0x32]\<rparr>)],
          isSegwit = Some True, expandedMiniscript = Some ''pk(@0)'',
          redeemScript = None,
          witnessScript = Some [0x4B, 0x2F, 0x31, 0x32, 0x2F, 0x31, 0x32, 0xAC], isRanged = True,
          canonicalExpression = ''wsh(pk(K/12/12))''\<rparr>"
  by (simp add: model_defs decimal.simps)

theorem expand_index_witness:
  "(\<exists>e. expand env0 (Some ''wsh(pk(K/*/*))'') None (Some NonInteger) False bitcoin False = Inl e) \<and>
   (\<exists>e. expand env0 (Some ''wsh(pk(K/*/*))'') None (Some (Integer (- 1))) False bitcoin False = Inl e) \<and>
   CHR ''*'' \<notin> set (bodyOf ''pkh(K)#llllllll'') \<and>
   (\<exists>e. expand env0 (Some ''pkh(K)#llllllll'') None (Some (Integer 0)) False bitcoin False = Inl e) \<and>
   (\<exists>r. expand env0 (Some ''wsh(pk(K/*/*))'') None (Some (Integer 12)) False bitcoin False = Inr r \<and>
        canonicalExpression r = ''wsh(pk(K/12/12))'' \<and> (12::int) \<le> MAX_SAFE_INTEGER \<and>
        Number_toString env0 12 = ''12'')"
proof -
  have 1: "\<exists>e. expand env0 (Some ''wsh(pk(K/*/*))'') None (Some NonInteger) False bitcoin False = Inl e"
    using expand_index [of "''wsh(pk(K/*/*))''" "Some ''wsh(pk(K/*/*))''" None NonInteger env0
        False bitcoin False]
    by (simp add: descriptorOrExpression_def truthy_def)
  have 2: "\<exists>e. expand env0 (Some ''wsh(pk(K/*/*))'') None (Some (Integer (- 1))) False bitcoin False = Inl e"
    using expand_index [of "''wsh(pk(K/*/*))''" "Some ''wsh(pk(K/*/*))''" None "Integer (- 1)" env0
        False bitcoin False]
    by (simp add: descriptorOrExpression_def truthy_def)
  have b: "bodyOf ''pkh(K)#llllllll'' = ''pkh(K)''"
    by (simp add: bodyOf_def matchChecksum_def CHECKSUM_CHARSET_def)
  have 3: "\<exists>e. expand env0 (Some ''pkh(K)#llllllll'') None (Some (Integer 0)) False bitcoin False = Inl e"
    using expand_index [of "''pkh(K)#llllllll''" "Some ''pkh(K)#llllllll''" None "Integer 0" env0
        False bitcoin False] b
    by (simp add: descriptorOrExpression_def truthy_def)
  have m: "(12::int) \<le> MAX_SAFE_INTEGER"
    by (simp add: MAX_SAFE_INTEGER_def)
  have 4: "Number_toString env0 12 = ''12''"
    using expand_index [of "''wsh(pk(K/*/*))''" "Some ''wsh(pk(K/*/*))''" None "Integer 12" env0
        False bitcoin False] run_two_wildcards m
    by (simp add: descriptorOrExpression_def truthy_def decimal.simps)
  from 1 2 3 4 b m run_two_wildcards show ?thesis by simp
qed

theorem expand_index_counterexample:
  "expand env0 (Some ''wsh(pk(K/*))'') None (Some (Integer 1000000000000000000000)) False
      bitcoin False =
     Inr \<lparr>payment = Some (Payment (Some [0x77, 0x4B, 0x2F]) None
                      (Some (Payment (Some [0x4B, 0x2F, 0x31, 0x65, 0x2B, 0x32, 0x31, 0xAC])
                               None None))),
          expandedExpression = Some ''wsh(pk(@0))'', miniscript = Some ''pk(K/1e+21)'',
          expansionMap = Some [(''@0'', \<lparr>keyExpression = ''K/1e+21'',
                                        pubkey = Some [0x4B, 0x2F, 0x31, 0x65, 0x2B, 0x32, 0x31]\<rparr>)],
          isSegwit = Some True, expandedMiniscript = Some ''pk(@0)'', redeemScript = None,
          witnessScript = Some [0x4B, 0x2F, 0x31, 0x65, 0x2B, 0x32, 0x31, 0xAC],
          isRanged = True, canonicalExpression = ''wsh(pk(K/1e+21))''\<rparr> \<and>
   replaceAll (CHR ''*'') (decimal 1000000000000000000000) ''wsh(pk(K/*))'' =
     ''wsh(pk(K/1000000000000000000000))''"
  by (simp add: model_defs formatDigits_def decimal.simps)

text \<open>
  C4. Take a call to \<^verbatim>\<open>expand\<close> whose canonical expression is \<^verbatim>\<open>addr(A)\<close>. If it
  succeeds, \<open>A\<close> decoded under the network to an output script, the payment is that of the
  last of the parsers p2pkh, p2sh, p2wpkh, p2wsh, p2tr (tried in this order) that accepted
  the script, and \<^verbatim>\<open>isSegwit\<close> is absent. If \<open>A\<close> does not decode, or no parser accepts the
  script, \<^verbatim>\<open>expand\<close> fails.
\<close>

theorem addr_last_parser:
  assumes "d = descriptorOrExpression dO eO"
    and "evaluate env d cr (map_option indexValue ix) = Inr canon"
    and "reAddrAnchored env canon = Some a"
  shows "(\<forall>r. expand env dO eO ix cr net allow = Inr r \<longrightarrow>
       (\<exists>out. toOutputScript env a net = Inr out \<and>
          payment r = lastSuccess [p2pkh env (FromOutput out) net, p2sh env (FromOutput out) net,
            p2wpkh env (FromOutput out) net, p2wsh env (FromOutput out) net,
            p2tr env (FromOutput out) net] \<and>
          payment r \<noteq> None) \<and>
       isSegwit r = None) \<and>
    ((\<exists>e. toOutputScript env a net = Inl e) \<longrightarrow>
       (\<exists>e. expand env dO eO ix cr net allow = Inl e)) \<and>
    (\<forall>out. toOutputScript env a net = Inr out \<and>
       lastSuccess [p2pkh env (FromOutput out) net, p2sh env (FromOutput out) net,
         p2wpkh env (FromOutput out) net, p2wsh env (FromOutput out) net,
         p2tr env (FromOutput out) net] = None \<longrightarrow>
       (\<exists>e. expand env dO eO ix cr net allow = Inl e))"
proof -
  have sh: "shellOf env canon = Addr a"
    using assms(3) by (simp add: shellOf_Addr)
  have run: "expandAddr env net (CHR ''*'' \<in> set d) canon a = Inr r"
    if "expand env dO eO ix cr net allow = Inr r" for r
  proof -
    from expand_canonical [OF that] assms(1,2)
    have "dispatch env net allow (CHR ''*'' \<in> set d) canon = Inr r" by simp
    with sh show ?thesis by (simp add: dispatch_def)
  qed
  show ?thesis
  proof (intro conjI allI impI)
    fix r
    assume "expand env dO eO ix cr net allow = Inr r"
    from run [OF this]
    show "\<exists>out. toOutputScript env a net = Inr out \<and>
          payment r = lastSuccess [p2pkh env (FromOutput out) net, p2sh env (FromOutput out) net,
            p2wpkh env (FromOutput out) net, p2wsh env (FromOutput out) net,
            p2tr env (FromOutput out) net] \<and>
          payment r \<noteq> None"
      and "isSegwit r = None"
      by (auto simp: expandAddr_eq split: if_splits sum.splits option.splits)
  next
    assume f: "\<exists>e. toOutputScript env a net = Inl e"
    show "\<exists>e. expand env dO eO ix cr net allow = Inl e"
    proof (rule not_Inr_fails)
      fix r
      show "expand env dO eO ix cr net allow \<noteq> Inr r"
      proof
        assume "expand env dO eO ix cr net allow = Inr r"
        from run [OF this] f show False
          by (auto simp: expandAddr_eq split: if_splits)
      qed
    qed
  next
    fix out
    assume f: "toOutputScript env a net = Inr out \<and>
       lastSuccess [p2pkh env (FromOutput out) net, p2sh env (FromOutput out) net,
         p2wpkh env (FromOutput out) net, p2wsh env (FromOutput out) net,
         p2tr env (FromOutput out) net] = None"
    show "\<exists>e. expand env dO eO ix cr net allow = Inl e"
    proof (rule not_Inr_fails)
      fix r
      show "expand env dO eO ix cr net allow \<noteq> Inr r"
      proof
        assume "expand env dO eO ix cr net allow = Inr r"
        from run [OF this] f show False
          by (auto simp: expandAddr_eq split: if_splits)
      qed
    qed
  qed
qed

lemma run_addr_taproot:
  "expand env_taproot (Some ''addr(1abc)'') None None False bitcoin False =
     Inr \<lparr>payment = Some (Payment (Some [0x31, 0x61, 0x62, 0x63]) (Some ''taproot'') None),
          expandedExpression = None, miniscript = None, expansionMap = None, isSegwit = None,
          expandedMiniscript = None, redeemScript = None, witnessScript = None,
          isRanged = False, canonicalExpression = ''addr(1abc)''\<rparr>"
  by (simp add: model_defs env_taproot_def)

theorem addr_last_parser_witness:
  "evaluate env_taproot ''addr(1abc)'' False None = Inr ''addr(1abc)'' \<and>
   reAddrAnchored env_taproot ''addr(1abc)'' = Some ''1abc'' \<and>
   toOutputScript env_taproot ''1abc'' bitcoin = Inr [0x31, 0x61, 0x62, 0x63] \<and>
   p2pkh env_taproot (FromOutput [0x31, 0x61, 0x62, 0x63]) bitcoin =
     Inr (Payment (Some [0x31, 0x61, 0x62, 0x63]) None None) \<and>
   p2tr env_taproot (FromOutput [0x31, 0x61, 0x62, 0x63]) bitcoin =
     Inr (Payment (Some [0x31, 0x61, 0x62, 0x63]) (Some ''taproot'') None) \<and>
   (\<exists>r. expand env_taproot (Some ''addr(1abc)'') None None False bitcoin False = Inr r \<and>
        payment r = Some (Payment (Some [0x31, 0x61, 0x62, 0x63]) (Some ''taproot'') None) \<and>
        isSegwit r = None) \<and>
   evaluate env0 ''addr(unknown)'' False None = Inr ''addr(unknown)'' \<and>
   reAddrAnchored env0 ''addr(unknown)'' = Some ''unknown'' \<and>
   toOutputScript env0 ''unknown'' bitcoin = Inl (External ''address'') \<and>
   (\<exists>e. expand env0 (Some ''addr(unknown)'') None None False bitcoin False = Inl e) \<and>
   evaluate env0 ''addr(xyz)'' False None = Inr ''addr(xyz)'' \<and>
   reAddrAnchored env0 ''addr(xyz)'' = Some ''xyz'' \<and>
   toOutputScript env0 ''xyz'' bitcoin = Inr [0x78, 0x79, 0x7A] \<and>
   (\<exists>e. expand env0 (Some ''addr(xyz)'') None None False bitcoin False = Inl e)"
proof -
  have h1: "evaluate env_taproot ''addr(1abc)'' False None = Inr ''addr(1abc)''"
    and h2: "reAddrAnchored env_taproot ''addr(1abc)'' = Some ''1abc''"
    and h3: "toOutputScript env_taproot ''1abc'' bitcoin = Inr [0x31, 0x61, 0x62, 0x63]"
    and h4: "p2pkh env_taproot (FromOutput [0x31, 0x61, 0x62, 0x63]) bitcoin =
       Inr (Payment (Some [0x31, 0x61, 0x62, 0x63]) None None)"
    and h5: "p2tr env_taproot (FromOutput [0x31, 0x61, 0x62, 0x63]) bitcoin =
       Inr (Payment (Some [0x31, 0x61, 0x62, 0x63]) (Some ''taproot'') None)"
    by (simp_all add: model_defs env_taproot_def)
  have g1: "evaluate env0 ''addr(unknown)'' False None = Inr ''addr(unknown)''"
    and g2: "reAddrAnchored env0 ''addr(unknown)'' = Some ''unknown''"
    and g3: "toOutputScript env0 ''unknown'' bitcoin = Inl (External ''address'')"
    by (simp_all add: model_defs)
  have k1: "evaluate env0 ''addr(xyz)'' False None = Inr ''addr(xyz)''"
    and k2: "reAddrAnchored env0 ''addr(xyz)'' = Some ''xyz''"
    and k3: "toOutputScript env0 ''xyz'' bitcoin = Inr [0x78, 0x79, 0x7A]"
    and k4: "lastSuccess [p2pkh env0 (FromOutput [0x78, 0x79, 0x7A]) bitcoin,
        p2sh env0 (FromOutput [0x78, 0x79, 0x7A]) bitcoin,
        p2wpkh env0 (FromOutput [0x78, 0x79, 0x7A]) bitcoin,
        p2wsh env0 (FromOutput [0x78, 0x79, 0x7A]) bitcoin,
        p2tr env0 (FromOutput [0x78, 0x79, 0x7A]) bitcoin] = None"
    by (simp_all add: model_defs)
  have d: "\<And>s. s \<noteq> [] \<Longrightarrow> descriptorOrExpression (Some s) None = s"
    by (simp add: descriptorOrExpression_def truthy_def)
  from addr_last_parser [of "''addr(1abc)''" "Some ''addr(1abc)''" None env_taproot False None
      "''addr(1abc)''" "''1abc''" bitcoin False] h1 h2 run_addr_taproot
  have 1: "\<exists>r. expand env_taproot (Some ''addr(1abc)'') None None False bitcoin False = Inr r \<and>
        payment r = Some (Payment (Some [0x31, 0x61, 0x62, 0x63]) (Some ''taproot'') None) \<and>
        isSegwit r = None"
    by (simp add: d)
  from addr_last_parser [of "''addr(unknown)''" "Some ''addr(unknown)''" None env0 False None
      "''addr(unknown)''" "''unknown''" bitcoin False] g1 g2 g3
  have 2: "\<exists>e. expand env0 (Some ''addr(unknown)'') None None False bitcoin False = Inl e"
    by (simp add: d)
  from addr_last_parser [of "''addr(xyz)''" "Some ''addr(xyz)''" None env0 False None
      "''addr(xyz)''" "''xyz''" bitcoin False] k1 k2 k3 k4
  have 3: "\<exists>e. expand env0 (Some ''addr(xyz)'') None None False bitcoin False = Inl e"
    by (simp add: d)
  from h1 h2 h3 h4 h5 g1 g2 g3 k1 k2 k3 1 2 3 show ?thesis by simp
qed

text \<open>
  C5. Take a call to \<^verbatim>\<open>expand\<close> whose canonical expression has no \<^verbatim>\<open>*\<close> and whose
  miniscript compiles to \<open>script\<close>. Under the shells \<^verbatim>\<open>sh(wsh(MS))\<close> and \<^verbatim>\<open>wsh(MS)\<close> the
  call fails when the script is longer than 3600 bytes, when it does not decompile, or
  when it decompiles to more than 201 opcode tokens above \<^verbatim>\<open>OP_16\<close> (\<^verbatim>\<open>0x60\<close>); under
  \<^verbatim>\<open>sh(MS)\<close> the same holds with 520 bytes. \<^verbatim>\<open>countNonPushOnlyOPs\<close> is that count, and
  its failure is the failure to decompile.
\<close>

theorem script_limits:
  assumes "d = descriptorOrExpression dO eO"
    and "evaluate env d cr (map_option indexValue ix) = Inr canon"
    and "CHR ''*'' \<notin> set canon"
    and "miniscript2Script env em emap = Inr script"
  shows "((shellOf env canon = ShWsh ms \<or> shellOf env canon = Wsh ms) \<and>
       expandMiniscript env ms True net = Inr (em, emap) \<and>
       (3600 < length script \<or>
        (case decompile env script of
           None \<Rightarrow> True
         | Some toks \<Rightarrow>
             201 < length (filter (\<lambda>t. case t of Opcode op \<Rightarrow> 0x60 < op | Push b \<Rightarrow> False) toks)))
       \<longrightarrow> (\<exists>e. expand env dO eO ix cr net allow = Inl e)) \<and>
    (shellOf env canon = Sh ms \<and>
       expandMiniscript env ms False net = Inr (em, emap) \<and>
       (520 < length script \<or>
        (case decompile env script of
           None \<Rightarrow> True
         | Some toks \<Rightarrow>
             201 < length (filter (\<lambda>t. case t of Opcode op \<Rightarrow> 0x60 < op | Push b \<Rightarrow> False) toks)))
       \<longrightarrow> (\<exists>e. expand env dO eO ix cr net allow = Inl e)) \<and>
    countNonPushOnlyOPs env script =
      (case decompile env script of
         None \<Rightarrow> Inl CouldNotDecompile
       | Some toks \<Rightarrow>
           Inr (length (filter (\<lambda>t. case t of Opcode op \<Rightarrow> 0x60 < op | Push b \<Rightarrow> False) toks)))"
proof -
  have run: "dispatch env net allow (CHR ''*'' \<in> set d) canon = Inr r"
    if "expand env dO eO ix cr net allow = Inr r" for r
    using expand_canonical [OF that] assms(1,2) by simp
  have ok: "length script \<le> maxSize \<and>
      (\<exists>toks. decompile env script = Some toks \<and>
         length (filter (\<lambda>t. case t of Opcode op \<Rightarrow> 0x60 < op | Push b \<Rightarrow> False) toks) \<le> 201)"
    if "compileChecked env em emap maxSize tooLarge = Inr s" for maxSize tooLarge s
    using compileChecked_Inr [OF that] assms(4)
    by (auto simp: isNonPushOp_eq MAX_OPS_PER_SCRIPT_def)
  show ?thesis
  proof (intro conjI impI)
    assume h: "(shellOf env canon = ShWsh ms \<or> shellOf env canon = Wsh ms) \<and>
       expandMiniscript env ms True net = Inr (em, emap) \<and>
       (3600 < length script \<or>
        (case decompile env script of
           None \<Rightarrow> True
         | Some toks \<Rightarrow>
             201 < length (filter (\<lambda>t. case t of Opcode op \<Rightarrow> 0x60 < op | Push b \<Rightarrow> False) toks)))"
    show "\<exists>e. expand env dO eO ix cr net allow = Inl e"
    proof (rule not_Inr_fails)
      fix r
      show "expand env dO eO ix cr net allow \<noteq> Inr r"
      proof
        assume "expand env dO eO ix cr net allow = Inr r"
        from run [OF this] h
        have "expandShWsh env net (CHR ''*'' \<in> set d) False canon ms = Inr r \<or>
              expandWsh env net (CHR ''*'' \<in> set d) False canon ms = Inr r"
          using assms(3) by (auto simp: dispatch_def)
        then obtain s where
          "compileChecked env em emap MAX_STANDARD_P2WSH_SCRIPT_SIZE ScriptTooLarge = Inr s"
          using expandShWsh_Inr [of env net "CHR ''*'' \<in> set d" False canon ms r]
            expandWsh_Inr [of env net "CHR ''*'' \<in> set d" False canon ms r] h
          by auto
        from ok [OF this] h show False
          by (auto simp: MAX_STANDARD_P2WSH_SCRIPT_SIZE_def)
      qed
    qed
  next
    assume h: "shellOf env canon = Sh ms \<and>
       expandMiniscript env ms False net = Inr (em, emap) \<and>
       (520 < length script \<or>
        (case decompile env script of
           None \<Rightarrow> True
         | Some toks \<Rightarrow>
             201 < length (filter (\<lambda>t. case t of Opcode op \<Rightarrow> 0x60 < op | Push b \<Rightarrow> False) toks)))"
    show "\<exists>e. expand env dO eO ix cr net allow = Inl e"
    proof (rule not_Inr_fails)
      fix r
      show "expand env dO eO ix cr net allow \<noteq> Inr r"
      proof
        assume "expand env dO eO ix cr net allow = Inr r"
        from run [OF this] h
        have "expandSh env net allow (CHR ''*'' \<in> set d) False canon ms = Inr r"
          using assms(3) by (auto simp: dispatch_def)
        then obtain s where
          "compileChecked env em emap MAX_SCRIPT_ELEMENT_SIZE P2SHScriptTooLarge = Inr s"
          using expandSh_Inr [of env net allow "CHR ''*'' \<in> set d" False canon ms r] h
          by auto
        from ok [OF this] h show False
          by (auto simp: MAX_SCRIPT_ELEMENT_SIZE_def)
      qed
    qed
  next
    show "countNonPushOnlyOPs env script =
      (case decompile env script of
         None \<Rightarrow> Inl CouldNotDecompile
       | Some toks \<Rightarrow>
           Inr (length (filter (\<lambda>t. case t of Opcode op \<Rightarrow> 0x60 < op | Push b \<Rightarrow> False) toks)))"
      by (simp add: countNonPushOnlyOPs_def isNonPushOp_eq split: option.splits)
  qed
qed


lemma limits_setup:
  "evaluate env_large ''wsh(pk(K))'' False None = Inr ''wsh(pk(K))''"
  "shellOf env_large ''wsh(pk(K))'' = Wsh ''pk(K)''"
  "expandMiniscript env_large ''pk(K)'' True bitcoin = Inr (''pk(@0)'', [(''@0'', toyKey ''K'')])"
  "miniscript2Script env_large ''pk(@0)'' [(''@0'', toyKey ''K'')] = Inr (replicate 3601 0)"
  "evaluate env_ops ''sh(wsh(pk(K)))'' False None = Inr ''sh(wsh(pk(K)))''"
  "shellOf env_ops ''sh(wsh(pk(K)))'' = ShWsh ''pk(K)''"
  "expandMiniscript env_ops ''pk(K)'' True bitcoin = Inr (''pk(@0)'', [(''@0'', toyKey ''K'')])"
  "miniscript2Script env_ops ''pk(@0)'' [(''@0'', toyKey ''K'')] = Inr (replicate 202 0xAC)"
  "decompile env_ops (replicate 202 0xAC) = Some (replicate 202 (Opcode 0xAC))"
  "evaluate env_p2sh_large ''sh(pk(K))'' False None = Inr ''sh(pk(K))''"
  "shellOf env_p2sh_large ''sh(pk(K))'' = Sh ''pk(K)''"
  "expandMiniscript env_p2sh_large ''pk(K)'' False bitcoin = Inr (''pk(@0)'', [(''@0'', toyKey ''K'')])"
  "miniscript2Script env_p2sh_large ''pk(@0)'' [(''@0'', toyKey ''K'')] = Inr (replicate 521 0)"
  by (simp_all add: evaluate_def matchChecksum_def substitute_def CHECKSUM_CHARSET_def shellOf_def
      matchShell_def bodyOf_def env0_def env_large_def env_ops_def
      env_p2sh_large_def keyBetween_def)

theorem script_limits_witness:
  "evaluate env_large ''wsh(pk(K))'' False None = Inr ''wsh(pk(K))'' \<and>
   shellOf env_large ''wsh(pk(K))'' = Wsh ''pk(K)'' \<and>
   miniscript2Script env_large ''pk(@0)'' [(''@0'', toyKey ''K'')] = Inr (replicate 3601 0) \<and>
   (\<exists>e. expand env_large (Some ''wsh(pk(K))'') None None False bitcoin False = Inl e) \<and>
   evaluate env_ops ''sh(wsh(pk(K)))'' False None = Inr ''sh(wsh(pk(K)))'' \<and>
   shellOf env_ops ''sh(wsh(pk(K)))'' = ShWsh ''pk(K)'' \<and>
   miniscript2Script env_ops ''pk(@0)'' [(''@0'', toyKey ''K'')] = Inr (replicate 202 0xAC) \<and>
   decompile env_ops (replicate 202 0xAC) = Some (replicate 202 (Opcode 0xAC)) \<and>
   countNonPushOnlyOPs env_ops (replicate 202 0xAC) = Inr 202 \<and>
   (\<exists>e. expand env_ops (Some ''sh(wsh(pk(K)))'') None None False bitcoin False = Inl e) \<and>
   evaluate env_p2sh_large ''sh(pk(K))'' False None = Inr ''sh(pk(K))'' \<and>
   shellOf env_p2sh_large ''sh(pk(K))'' = Sh ''pk(K)'' \<and>
   miniscript2Script env_p2sh_large ''pk(@0)'' [(''@0'', toyKey ''K'')] = Inr (replicate 521 0) \<and>
   (\<exists>e. expand env_p2sh_large (Some ''sh(pk(K))'') None None False bitcoin False = Inl e)"
proof -
  have d: "\<And>s. s \<noteq> [] \<Longrightarrow> descriptorOrExpression (Some s) None = s"
    by (simp add: descriptorOrExpression_def truthy_def)
  from script_limits [of "''wsh(pk(K))''" "Some ''wsh(pk(K))''" None env_large False None
      "''wsh(pk(K))''" "''pk(@0)''" "[(''@0'', toyKey ''K'')]" "replicate 3601 0" "''pk(K)''"
      bitcoin False] limits_setup
  have 1: "\<exists>e. expand env_large (Some ''wsh(pk(K))'') None None False bitcoin False = Inl e"
    by (simp add: d)
  from script_limits [of "''sh(wsh(pk(K)))''" "Some ''sh(wsh(pk(K)))''" None env_ops False None
      "''sh(wsh(pk(K)))''" "''pk(@0)''" "[(''@0'', toyKey ''K'')]" "replicate 202 0xAC" "''pk(K)''"
      bitcoin False] limits_setup
  have 2: "(\<exists>e. expand env_ops (Some ''sh(wsh(pk(K)))'') None None False bitcoin False = Inl e) \<and>
      countNonPushOnlyOPs env_ops (replicate 202 0xAC) = Inr 202"
    by (simp add: d)
  from script_limits [of "''sh(pk(K))''" "Some ''sh(pk(K))''" None env_p2sh_large False None
      "''sh(pk(K))''" "''pk(@0)''" "[(''@0'', toyKey ''K'')]" "replicate 521 0" "''pk(K)''"
      bitcoin False] limits_setup
  have 3: "\<exists>e. expand env_p2sh_large (Some ''sh(pk(K))'') None None False bitcoin False = Inl e"
    by (simp add: d)
  from 1 2 3 limits_setup show ?thesis by simp
qed

text \<open>
  C6. As stated, the claim fails in three ways (the counterexample below, on \<open>env0\<close>).
  For a ranged descriptor that carries a checksum, the checksum covers the body with
  its wildcards, so after the textual replacement it is stale and the second
  \<^verbatim>\<open>expand\<close> rejects it; by \<open>stale_checksum\<close> this happens with every checksum function
  that tells the replaced body from the checksum of the original one. For an index above
  \<^verbatim>\<open>Number.MAX_SAFE_INTEGER\<close> the index is substituted as \<^verbatim>\<open>index.toString()\<close>, which is
  not its decimal representation at \<open>10^21\<close>, and the two scriptPubKeys differ. And when
  the replaced text ends in \<^verbatim>\<open>#\<close> with eight checksum characters, the second \<^verbatim>\<open>expand\<close>
  takes them for a checksum. What holds: for an index up to \<^verbatim>\<open>Number.MAX_SAFE_INTEGER\<close>,
  whenever \<^verbatim>\<open>expand\<close> succeeds on \<open>d\<close> with the index, and the body of \<open>d\<close> with every
  \<^verbatim>\<open>*\<close> replaced by the decimal representation of the index carries no trailing checksum,
  expanding that text with no index (and no checksum required) succeeds with the same
  result but for \<^verbatim>\<open>isRanged\<close>, hence with the same payment and scriptPubKey. The body of
  a descriptor without checksum is the descriptor, and such a descriptor expands only
  when no checksum is required.
\<close>

theorem expand_index_commutes:
  assumes "expand env dO eO (Some (Integer i)) cr net allow = Inr r"
    and "d = descriptorOrExpression dO eO"
    and "i \<le> MAX_SAFE_INTEGER"
    and "matchChecksum (replaceAll (CHR ''*'') (decimal (nat i)) (bodyOf d)) = None"
  shows "(\<exists>p. payment r = Some p \<and>
       expand env (Some (replaceAll (CHR ''*'') (decimal (nat i)) (bodyOf d)))
         None None False net allow = Inr (r\<lparr>isRanged := False\<rparr>) \<and>
       payment (r\<lparr>isRanged := False\<rparr>) = Some p) \<and>
    (matchChecksum d = None \<longrightarrow> bodyOf d = d \<and> \<not> cr)"
proof -
  let ?c = "replaceAll (CHR ''*'') (decimal (nat i)) (bodyOf d)"
  from expand_Inr [OF assms(1)] have i: "0 \<le> i" by simp
  from expand_canonical [OF assms(1)]
  have e: "evaluate env d cr (Some (nat i)) = Inr (canonicalExpression r)"
    and di: "dispatch env net allow (CHR ''*'' \<in> set d) (canonicalExpression r) = Inr r"
    by (simp_all add: assms(2))
  from evaluate_Inr [OF e]
  have su: "substitute env (bodyOf d) (Some (nat i)) = Inr (canonicalExpression r)"
    and ck: "case matchChecksum d of None \<Rightarrow> \<not> cr
      | Some m \<Rightarrow> DescriptorChecksum env (bodyOf d) = Inr (drop 1 m)"
    by simp_all
  from i assms(3) have ts: "Number_toString env (nat i) = decimal (nat i)"
    by (simp add: Number_toString_safe)
  from substitute_Inr [OF su] ts
  have st: "CHR ''*'' \<in> set (bodyOf d)" and c: "canonicalExpression r = ?c"
    by simp_all
  from st set_bodyOf [of d] have ranged: "CHR ''*'' \<in> set d" by blast
  from c have ns: "CHR ''*'' \<notin> set (canonicalExpression r)"
    by (simp add: replaceAll_no_star decimal_no_star)
  from c st have ne: "canonicalExpression r \<noteq> []"
    by (simp add: replaceAll_nonempty decimal_nonempty)
  from c assms(4) have nc: "matchChecksum (canonicalExpression r) = None"
    by simp
  from dispatch_Inr [OF di]
  have sh: "case shellOf env (canonicalExpression r) of
       Addr a \<Rightarrow> \<not> CHR ''*'' \<in> set d \<and> payment r \<noteq> None \<and> redeemScript r = None \<and>
         witnessScript r = None \<and> isSegwit r = None
     | _ \<Rightarrow> (payment r = None \<longleftrightarrow> CHR ''*'' \<in> set (canonicalExpression r)) \<and>
         (CHR ''*'' \<in> set (canonicalExpression r) \<longrightarrow>
            redeemScript r = None \<and> witnessScript r = None)"
    by simp
  from sh ranged have na: "shellOf env (canonicalExpression r) \<noteq> Addr a" for a
    by (cases "shellOf env (canonicalExpression r)") simp_all
  with sh ns have "payment r \<noteq> None"
    by (cases "shellOf env (canonicalExpression r)") simp_all
  then obtain p where p: "payment r = Some p" by blast
  have "expand env (Some (canonicalExpression r)) None None False net allow =
      dispatch env net allow (CHR ''*'' \<in> set (canonicalExpression r)) (canonicalExpression r)"
    using ne nc by (simp add: expand_plain)
  also have "\<dots> = map_sum id (\<lambda>r. r\<lparr>isRanged := False\<rparr>)
      (dispatch env net allow (CHR ''*'' \<in> set d) (canonicalExpression r))"
    using dispatch_ranged [of env "canonicalExpression r" net allow False "CHR ''*'' \<in> set d"]
      na ns by simp
  also have "\<dots> = Inr (r\<lparr>isRanged := False\<rparr>)"
    by (simp add: di)
  finally have "expand env (Some ?c) None None False net allow = Inr (r\<lparr>isRanged := False\<rparr>)"
    by (simp add: c)
  moreover have "matchChecksum d = None \<longrightarrow> bodyOf d = d \<and> \<not> cr"
    using ck by (auto simp: bodyOf_def split: option.splits)
  ultimately show ?thesis using p by simp
qed

lemma run_wsh_checksum_index:
  "expand env0 (Some ''wsh(pk(K/*))#nnnnnnnn'') None (Some (Integer 7)) False bitcoin False =
     Inr \<lparr>payment = Some (Payment (Some [0x77, 0x4B, 0x2F]) None
                      (Some (Payment (Some [0x4B, 0x2F, 0x37, 0xAC]) None None))),
          expandedExpression = Some ''wsh(pk(@0))'',
          miniscript = Some ''pk(K/7)'',
          expansionMap = Some [(''@0'', \<lparr>keyExpression = ''K/7'', pubkey = Some [0x4B, 0x2F, 0x37]\<rparr>)],
          isSegwit = Some True, expandedMiniscript = Some ''pk(@0)'',
          redeemScript = None,
          witnessScript = Some [0x4B, 0x2F, 0x37, 0xAC], isRanged = True,
          canonicalExpression = ''wsh(pk(K/7))''\<rparr>"
  by (simp add: model_defs decimal.simps)

theorem expand_index_commutes_witness:
  "(\<exists>r. expand env0 (Some ''wsh(pk(K/*))#nnnnnnnn'') None (Some (Integer 7)) False bitcoin False = Inr r \<and>
     (7::int) \<le> MAX_SAFE_INTEGER \<and>
     bodyOf ''wsh(pk(K/*))#nnnnnnnn'' = ''wsh(pk(K/*))'' \<and>
     replaceAll (CHR ''*'') (decimal 7) ''wsh(pk(K/*))'' = ''wsh(pk(K/7))'' \<and>
     matchChecksum ''wsh(pk(K/7))'' = None \<and>
     expand env0 (Some ''wsh(pk(K/7))'') None None False bitcoin False = Inr (r\<lparr>isRanged := False\<rparr>) \<and>
     payment r = Some (Payment (Some [0x77, 0x4B, 0x2F]) None
                      (Some (Payment (Some [0x4B, 0x2F, 0x37, 0xAC]) None None))))"
proof -
  have m: "(7::int) \<le> MAX_SAFE_INTEGER"
    by (simp add: MAX_SAFE_INTEGER_def)
  have b: "bodyOf ''wsh(pk(K/*))#nnnnnnnn'' = ''wsh(pk(K/*))''"
    by (simp add: bodyOf_def matchChecksum_def CHECKSUM_CHARSET_def)
  have t: "replaceAll (CHR ''*'') (decimal 7) ''wsh(pk(K/*))'' = ''wsh(pk(K/7))''"
    by (simp add: replaceAll_def decimal.simps)
  have n: "matchChecksum ''wsh(pk(K/7))'' = None"
    by (simp add: matchChecksum_def CHECKSUM_CHARSET_def)
  from expand_index_commutes [OF run_wsh_checksum_index, of "''wsh(pk(K/*))#nnnnnnnn''"] m b t n
    run_wsh_checksum_index
  show ?thesis
    by (simp add: descriptorOrExpression_def truthy_def)
qed

theorem expand_index_commutes_counterexample:
  "expand env0 (Some ''wsh(pk(K/*))#nnnnnnnn'') None (Some (Integer 7)) False bitcoin False =
     Inr \<lparr>payment = Some (Payment (Some [0x77, 0x4B, 0x2F]) None
                      (Some (Payment (Some [0x4B, 0x2F, 0x37, 0xAC]) None None))),
          expandedExpression = Some ''wsh(pk(@0))'',
          miniscript = Some ''pk(K/7)'',
          expansionMap = Some [(''@0'', \<lparr>keyExpression = ''K/7'', pubkey = Some [0x4B, 0x2F, 0x37]\<rparr>)],
          isSegwit = Some True, expandedMiniscript = Some ''pk(@0)'',
          redeemScript = None,
          witnessScript = Some [0x4B, 0x2F, 0x37, 0xAC], isRanged = True,
          canonicalExpression = ''wsh(pk(K/7))''\<rparr> \<and>
   replaceAll (CHR ''*'') (decimal 7) ''wsh(pk(K/*))#nnnnnnnn'' = ''wsh(pk(K/7))#nnnnnnnn'' \<and>
   expand env0 (Some ''wsh(pk(K/7))#nnnnnnnn'') None None False bitcoin False = Inl InvalidChecksum \<and>
   expand env0 (Some ''pkh(K/*)'') None (Some (Integer 1000000000000000000000)) False bitcoin False =
     Inr \<lparr>payment = Some (Payment (Some (0x31 # bytesOf ''K/1e+21'')) None None),
          expandedExpression = Some ''pkh(@0)'', miniscript = None,
          expansionMap = Some [(''@0'', \<lparr>keyExpression = ''K/1e+21'',
                                        pubkey = Some (bytesOf ''K/1e+21'')\<rparr>)],
          isSegwit = Some False, expandedMiniscript = None, redeemScript = None,
          witnessScript = None, isRanged = True, canonicalExpression = ''pkh(K/1e+21)''\<rparr> \<and>
   replaceAll (CHR ''*'') (decimal 1000000000000000000000) ''pkh(K/*)'' = ''pkh(K/1000000000000000000000)'' \<and>
   expand env0 (Some ''pkh(K/1000000000000000000000)'') None None False bitcoin False =
     Inr \<lparr>payment = Some (Payment (Some (0x31 # bytesOf ''K/1000000000000000000000'')) None None),
          expandedExpression = Some ''pkh(@0)'', miniscript = None,
          expansionMap = Some [(''@0'', \<lparr>keyExpression = ''K/1000000000000000000000'',
                                        pubkey = Some (bytesOf ''K/1000000000000000000000'')\<rparr>)],
          isSegwit = Some False, expandedMiniscript = None, redeemScript = None,
          witnessScript = None, isRanged = False, canonicalExpression = ''pkh(K/1000000000000000000000)''\<rparr> \<and>
   0x31 # bytesOf ''K/1e+21'' \<noteq> 0x31 # bytesOf ''K/1000000000000000000000'' \<and>
   matchChecksum ''wsh(pk(K/*))#ppppppp*'' = None \<and>
   expand env0 (Some ''wsh(pk(K/*))#ppppppp*'') None (Some (Integer 7)) False bitcoin False =
     Inr \<lparr>payment = Some (Payment (Some [0x77, 0x4B, 0x2F]) None
                      (Some (Payment (Some [0x4B, 0x2F, 0x37, 0xAC]) None None))),
          expandedExpression = Some ''wsh(pk(@0))'',
          miniscript = Some ''pk(K/7)'',
          expansionMap = Some [(''@0'', \<lparr>keyExpression = ''K/7'', pubkey = Some [0x4B, 0x2F, 0x37]\<rparr>)],
          isSegwit = Some True, expandedMiniscript = Some ''pk(@0)'',
          redeemScript = None,
          witnessScript = Some [0x4B, 0x2F, 0x37, 0xAC], isRanged = True,
          canonicalExpression = ''wsh(pk(K/7))#ppppppp7''\<rparr> \<and>
   replaceAll (CHR ''*'') (decimal 7) ''wsh(pk(K/*))#ppppppp*'' = ''wsh(pk(K/7))#ppppppp7'' \<and>
   expand env0 (Some ''wsh(pk(K/7))#ppppppp7'') None None False bitcoin False = Inl InvalidChecksum"
  by (simp add: model_defs formatDigits_def decimal.simps)

end
